theory Spec2Isabelle
  imports Main "HOL-Library.List_Lexorder" "HOL-Library.Char_ord"
    "HOL-Library.Product_Lexorder"
begin

section \<open>Job records\<close>

text \<open>
  The job engine of the bulk import/export service. Timestamps are milliseconds since the
  epoch (\<open>nat\<close>), identifiers and node names are strings, a nullable column is an
  \<open>option\<close>. The jobs table is the list of its rows; a row is found by its primary key
  \<open>id\<close> (field \<open>id_job\<close>, since \<open>id\<close> is the identity function of HOL).
\<close>

datatype ImportJobStatus = PENDING | PROCESSING | COMPLETED | FAILED | CANCELLED

datatype ResourceType = USERS | ARTICLES | COMMENTS

fun status_str :: "ImportJobStatus \<Rightarrow> string" where
  "status_str PENDING = ''pending''"
| "status_str PROCESSING = ''processing''"
| "status_str COMPLETED = ''completed''"
| "status_str FAILED = ''failed''"
| "status_str CANCELLED = ''cancelled''"

record ImportJobError =
  row :: nat
  field :: "string option"
  message :: string
  value_of :: "string option"

record ImportJobMetrics =
  rowsPerSecond :: nat
  errorRate :: "nat \<times> nat"
  durationMs :: nat

record ImportJob =
  id_job :: string
  idempotencyKey :: "string option"
  resourceType :: ResourceType
  status :: ImportJobStatus
  fileUrl :: "string option"
  fileName :: "string option"
  fileSize :: "nat option"
  fileFormat :: "string option"
  totalRows :: nat
  processedRows :: nat
  successfulRows :: nat
  failedRows :: nat
  skippedRows :: nat
  errors :: "ImportJobError list"
  metrics :: "ImportJobMetrics option"
  errorMessage :: "string option"
  startedAt :: "nat option"
  completedAt :: "nat option"
  lockedBy :: "string option"
  lockedAt :: "nat option"
  version :: nat

text \<open>
  \<open>Partial<ImportJob>\<close>: each field is either absent (\<open>None\<close>) or present with a
  value; a present \<open>null\<close> on a nullable column is \<open>Some None\<close>. The fields are the
  ones the callers of the job store pass, and \<open>status\<close>, which the type also admits.
\<close>

record PartialImportJob =
  p_status :: "ImportJobStatus option"
  p_totalRows :: "nat option"
  p_processedRows :: "nat option"
  p_successfulRows :: "nat option"
  p_failedRows :: "nat option"
  p_skippedRows :: "nat option"
  p_errors :: "ImportJobError list option"
  p_metrics :: "ImportJobMetrics option option"
  p_errorMessage :: "string option option"
  p_startedAt :: "nat option option"
  p_completedAt :: "nat option option"
  p_lockedBy :: "string option option"
  p_lockedAt :: "nat option option"

definition no_updates :: PartialImportJob where
  "no_updates = \<lparr> p_status = None, p_totalRows = None, p_processedRows = None,
     p_successfulRows = None, p_failedRows = None, p_skippedRows = None, p_errors = None,
     p_metrics = None, p_errorMessage = None, p_startedAt = None, p_completedAt = None,
     p_lockedBy = None, p_lockedAt = None \<rparr>"

definition or_keep :: "'a option \<Rightarrow> 'a \<Rightarrow> 'a" where
  "or_keep u old = (case u of None \<Rightarrow> old | Some v \<Rightarrow> v)"

text \<open>\<open>Object.assign(job, updates)\<close>: every field present in the updates overwrites.\<close>

definition assign :: "ImportJob \<Rightarrow> PartialImportJob \<Rightarrow> ImportJob" where
  "assign job u = job\<lparr>
     status := or_keep (p_status u) (status job),
     totalRows := or_keep (p_totalRows u) (totalRows job),
     processedRows := or_keep (p_processedRows u) (processedRows job),
     successfulRows := or_keep (p_successfulRows u) (successfulRows job),
     failedRows := or_keep (p_failedRows u) (failedRows job),
     skippedRows := or_keep (p_skippedRows u) (skippedRows job),
     errors := or_keep (p_errors u) (errors job),
     metrics := or_keep (p_metrics u) (metrics job),
     errorMessage := or_keep (p_errorMessage u) (errorMessage job),
     startedAt := or_keep (p_startedAt u) (startedAt job),
     completedAt := or_keep (p_completedAt u) (completedAt job),
     lockedBy := or_keep (p_lockedBy u) (lockedBy job),
     lockedAt := or_keep (p_lockedAt u) (lockedAt job) \<rparr>"

section \<open>Job store\<close>

type_synonym jobs_table = "ImportJob list"

text \<open>The row-locked read \<open>where job.id = :id ... getOne()\<close>.\<close>

definition getOne :: "jobs_table \<Rightarrow> string \<Rightarrow> ImportJob option" where
  "getOne db jobId = find (\<lambda>j. id_job j = jobId) db"

text \<open>
  \<open>manager.save(job)\<close> of a loaded entity: the row with the entity's primary key is
  replaced and the \<open>@VersionColumn\<close> is incremented; the entity carries the new version.
\<close>

definition bump :: "ImportJob \<Rightarrow> ImportJob" where
  "bump job = job\<lparr>version := version job + 1\<rparr>"

definition save :: "jobs_table \<Rightarrow> ImportJob \<Rightarrow> jobs_table" where
  "save db job = map (\<lambda>r. if id_job r = id_job job then bump job else r) db"

record TransitionResult =
  success :: bool
  job :: "ImportJob option"
  reason :: "string option"

text \<open>
  \<open>atomicStatusTransition\<close>. The argument \<open>fault\<close> is the message of the error the
  store throws on save or commit, if it throws: the \<open>catch\<close> rolls the transaction back
  and reports the message.
\<close>

definition atomicStatusTransition ::
  "string option \<Rightarrow> jobs_table \<Rightarrow> string \<Rightarrow> ImportJobStatus \<Rightarrow> ImportJobStatus \<Rightarrow>
   PartialImportJob option \<Rightarrow> TransitionResult \<times> jobs_table" where
  "atomicStatusTransition fault db jobId fromStatus toStatus additionalUpdates =
     (case getOne db jobId of
        None \<Rightarrow> (\<lparr>success = False, job = None, reason = Some ''Job not found''\<rparr>, db)
      | Some j \<Rightarrow>
          if status j \<noteq> fromStatus then
            (\<lparr>success = False, job = None,
              reason = Some (''Job status is '' @ status_str (status j) @ '', expected ''
                             @ status_str fromStatus)\<rparr>, db)
          else
            let j1 = j\<lparr>status := toStatus\<rparr>;
                j2 = (case additionalUpdates of None \<Rightarrow> j1 | Some u \<Rightarrow> assign j1 u)
            in (case fault of
                  Some msg \<Rightarrow> (\<lparr>success = False, job = None, reason = Some msg\<rparr>, db)
                | None \<Rightarrow> (\<lparr>success = True, job = Some (bump j2), reason = None\<rparr>, save db j2)))"

datatype FinalizeOutcome = Finalized | Refused string | Threw string

text \<open>
  \<open>finalizeJob\<close>: a missing job and a store error are thrown to the caller; a job that
  is not in PROCESSING is refused with a logged warning.
\<close>

definition finalizeJob ::
  "string option \<Rightarrow> jobs_table \<Rightarrow> string \<Rightarrow> ImportJobStatus \<Rightarrow> PartialImportJob \<Rightarrow>
   FinalizeOutcome \<times> jobs_table" where
  "finalizeJob fault db jobId st updates =
     (case getOne db jobId of
        None \<Rightarrow> (Threw (''Job '' @ jobId @ '' not found during finalization''), db)
      | Some j \<Rightarrow>
          if status j \<noteq> PROCESSING then
            (Refused (''Job '' @ jobId @ '' cannot be finalized: status is ''
                      @ status_str (status j) @ '', expected PROCESSING''), db)
          else
            let j2 = assign (j\<lparr>status := st\<rparr>) updates
            in (case fault of
                  Some msg \<Rightarrow> (Threw msg, db)
                | None \<Rightarrow> (Finalized, save db j2)))"

section \<open>Format detection\<close>

text \<open>\<open>s.split('.')\<close>: the segments between the dots, at least one.\<close>

fun split_on :: "char \<Rightarrow> string \<Rightarrow> string list" where
  "split_on d [] = [[]]"
| "split_on d (c # cs) =
     (if c = d then [] # split_on d cs
      else (case split_on d cs of [] \<Rightarrow> [[c]] | seg # segs \<Rightarrow> (c # seg) # segs))"

text \<open>\<open>toLowerCase\<close> on the ASCII letters, the only ones the recognised names have.\<close>

definition lower_char :: "char \<Rightarrow> char" where
  "lower_char c =
     (case map_of (zip ''ABCDEFGHIJKLMNOPQRSTUVWXYZ'' ''abcdefghijklmnopqrstuvwxyz'') c of
        None \<Rightarrow> c | Some l \<Rightarrow> l)"

definition toLowerCase :: "string \<Rightarrow> string" where
  "toLowerCase s = map lower_char s"

definition detectFormat :: "string \<Rightarrow> string" where
  "detectFormat filename =
     (let ext = toLowerCase (last (split_on CHR ''.'' filename)) in
      if ext = ''csv'' then ''csv''
      else if ext = ''ndjson'' \<or> ext = ''jsonl'' then ''ndjson''
      else ''json'')"

section \<open>Creating import jobs\<close>




record ImportJobData =
  jd_jobId :: string
  jd_resourceType :: ResourceType
  jd_fileUrl :: "string option"
  jd_filePath :: "string option"
  jd_fileFormat :: string
  jd_idempotencyKey :: "string option"





text \<open>Truthiness of an optional string: \<open>undefined\<close>, \<open>null\<close> and \<open>''\<close> are falsy.\<close>

definition truthy :: "string option \<Rightarrow> bool" where
  "truthy s = (case s of None \<Rightarrow> False | Some t \<Rightarrow> t \<noteq> [])"












section \<open>Import pipeline\<close>

text \<open>
  Decoded records are JSON values. The per-record validator (class-validator over the
  record DTOs) and the upsert of a batch of valid records (one database transaction) are
  arguments of the pipeline: \<open>validateRecord\<close> gives the verdict on one record,
  \<open>upsertRecords\<close> the counters and row errors of one batch.
\<close>

datatype json = JNull | JBool bool | JNum int | JStr string | JArr "json list"
  | JObj "(string \<times> json) list"

fun json_truthy :: "json \<Rightarrow> bool" where
  "json_truthy JNull = False"
| "json_truthy (JBool b) = b"
| "json_truthy (JNum n) = (n \<noteq> 0)"
| "json_truthy (JStr s) = (s \<noteq> [])"
| "json_truthy (JArr xs) = True"
| "json_truthy (JObj kvs) = True"

record FieldError =
  fe_field :: string
  fe_message :: string
  fe_value :: "string option"

record ValidatedImportRecord =
  isValid :: bool
  v_data :: "json option"
  v_errors :: "FieldError list option"
  v_lineNumber :: nat

record ImportBatchResult =
  successful :: nat
  failed :: nat
  skipped :: nat
  batch_errors :: "ImportJobError list"

type_synonym validator = "json \<Rightarrow> ResourceType \<Rightarrow> nat \<Rightarrow> ValidatedImportRecord"
type_synonym upserter = "ValidatedImportRecord list \<Rightarrow> ResourceType \<Rightarrow> ImportBatchResult"

definition maxErrors :: nat where
  "maxErrors = 100"

text \<open>
  The loop over the invalid records of a batch: each one counts as failed; its field
  errors are all appended when the list is still below the cap.
\<close>

fun add_validation_errors ::
  "ValidatedImportRecord list \<Rightarrow> nat \<times> ImportJobError list \<Rightarrow> nat \<times> ImportJobError list" where
  "add_validation_errors [] acc = acc"
| "add_validation_errors (r # rs) (nfailed, errs) =
     add_validation_errors rs
       (nfailed + 1,
        (case v_errors r of
           Some es \<Rightarrow>
             if length errs < maxErrors
             then errs @ map (\<lambda>e. \<lparr>row = v_lineNumber r, field = Some (fe_field e),
                                     message = fe_message e, value_of = fe_value e\<rparr>) es
             else errs
         | None \<Rightarrow> errs))"

definition processBatchWithLineNumbers ::
  "validator \<Rightarrow> upserter \<Rightarrow> (json \<times> nat) list \<Rightarrow> ResourceType \<Rightarrow> ImportBatchResult" where
  "processBatchWithLineNumbers validateRecord upsertRecords records rt =
     (let validatedRecords = map (\<lambda>(d, lineNumber). validateRecord d rt lineNumber) records;
          validRecords = filter isValid validatedRecords;
          invalidRecords = filter (\<lambda>r. \<not> isValid r) validatedRecords;
          (nfailed, errs) = add_validation_errors invalidRecords (0, [])
      in if validRecords \<noteq> [] then
           let result = upsertRecords validRecords rt
           in \<lparr>successful = successful result, failed = nfailed + failed result,
               skipped = skipped result, batch_errors = errs @ batch_errors result\<rparr>
         else \<lparr>successful = 0, failed = nfailed, skipped = 0, batch_errors = errs\<rparr>)"

definition processBatch ::
  "validator \<Rightarrow> upserter \<Rightarrow> json list \<Rightarrow> ResourceType \<Rightarrow> nat \<Rightarrow> ImportBatchResult" where
  "processBatch validateRecord upsertRecords batch rt startRow =
     processBatchWithLineNumbers validateRecord upsertRecords
       (map (\<lambda>(d, index). (d, startRow + index)) (zip batch [0..<length batch])) rt"

text \<open>
  \<open>BatchTransform\<close>: a batch is emitted as soon as it holds \<open>batchSize\<close> items (at once
  when \<open>batchSize\<close> is 0), the rest on flush.
\<close>

function batches :: "nat \<Rightarrow> 'a list \<Rightarrow> 'a list list" where
  "batches n xs = (if xs = [] then [] else take (max 1 n) xs # batches n (drop (max 1 n) xs))"
  by pat_completeness auto
termination
  by (relation "measure (\<lambda>(n, xs). length xs)") auto

declare batches.simps [simp del]

text \<open>\<open>repository.update(jobId, counters)\<close>: a plain update by primary key.\<close>

definition updateJobProgress ::
  "jobs_table \<Rightarrow> string \<Rightarrow> nat \<Rightarrow> nat \<Rightarrow> nat \<Rightarrow> nat \<Rightarrow> nat \<Rightarrow> jobs_table" where
  "updateJobProgress db jobId t p s f k =
     map (\<lambda>r. if id_job r = jobId
               then bump (r\<lparr>totalRows := t, processedRows := p, successfulRows := s,
                            failedRows := f, skippedRows := k\<rparr>)
               else r) db"

record ImportCounts =
  res_totalRows :: nat
  res_processedRows :: nat
  res_successfulRows :: nat
  res_failedRows :: nat
  res_skippedRows :: nat
  res_errors :: "ImportJobError list"

definition zero_counts :: ImportCounts where
  "zero_counts = \<lparr> res_totalRows = 0, res_processedRows = 0, res_successfulRows = 0,
     res_failedRows = 0, res_skippedRows = 0, res_errors = [] \<rparr>"

text \<open>\<open>if (errors.length < maxErrors) errors.push(...more.slice(0, maxErrors - errors.length))\<close>\<close>

definition push_capped :: "ImportJobError list \<Rightarrow> ImportJobError list \<Rightarrow> ImportJobError list" where
  "push_capped errs extra =
     (if length errs < maxErrors then errs @ take (maxErrors - length errs) extra else errs)"

text \<open>The progress update with the running counters.\<close>

definition flush_counts :: "jobs_table \<Rightarrow> string \<Rightarrow> ImportCounts \<Rightarrow> jobs_table" where
  "flush_counts db jobId c =
     updateJobProgress db jobId (res_totalRows c) (res_processedRows c)
       (res_successfulRows c) (res_failedRows c) (res_skippedRows c)"

definition flush_every_10 :: "nat \<Rightarrow> jobs_table \<Rightarrow> string \<Rightarrow> ImportCounts \<Rightarrow> jobs_table" where
  "flush_every_10 batchNumber db jobId c =
     (if batchNumber mod 10 = 0 then flush_counts db jobId c else db)"

text \<open>
  The counter updates after a batch of \<open>n\<close> rows in the CSV and JSON loops:
  \<open>processedRows += n\<close>, the three result counters are added, the errors are pushed
  under the cap.
\<close>

definition add_batch :: "ImportCounts \<Rightarrow> nat \<Rightarrow> ImportBatchResult \<Rightarrow> ImportCounts" where
  "add_batch c n result = c\<lparr>
     res_processedRows := res_processedRows c + n,
     res_successfulRows := res_successfulRows c + successful result,
     res_failedRows := res_failedRows c + failed result,
     res_skippedRows := res_skippedRows c + skipped result,
     res_errors := push_capped (res_errors c) (batch_errors result) \<rparr>"

text \<open>The body of \<open>processCSVStream\<close>: the loop over the batches of decoded rows.\<close>

fun csv_loop ::
  "validator \<Rightarrow> upserter \<Rightarrow> nat \<Rightarrow> ResourceType \<Rightarrow> string \<Rightarrow> json list list \<Rightarrow> nat \<Rightarrow>
   ImportCounts \<Rightarrow> jobs_table \<Rightarrow> ImportCounts \<times> jobs_table" where
  "csv_loop V U batchSize rt jobId [] batchNumber c db = (c, db)"
| "csv_loop V U batchSize rt jobId (batch # rest) batchNumber c db =
     (let bn = batchNumber + 1;
          startRow = (bn - 1) * batchSize + 1;
          c1 = c\<lparr>res_totalRows := res_totalRows c + length batch\<rparr>;
          result = processBatch V U batch rt startRow;
          c' = add_batch c1 (length batch) result
      in csv_loop V U batchSize rt jobId rest bn c' (flush_every_10 bn db jobId c'))"

definition processCSVStream ::
  "validator \<Rightarrow> upserter \<Rightarrow> nat \<Rightarrow> jobs_table \<Rightarrow> json list \<Rightarrow> ResourceType \<Rightarrow> string \<Rightarrow>
   ImportCounts \<times> jobs_table" where
  "processCSVStream V U batchSize db rows rt jobId =
     csv_loop V U batchSize rt jobId (batches batchSize rows) 0 zero_counts db"

text \<open>
  An item of \<open>NdjsonParseTransform\<close>: the parsed value or the parse error of one
  non-empty line, with its line number.
\<close>

record NdjsonItem =
  item_data :: "json option"
  item_error :: "string option"
  item_lineNumber :: nat

text \<open>
  The inner loop of \<open>processNDJSONStream\<close> over one batch: an item with an error counts
  as failed and is reported while the list is below the cap; an item with (truthy) data
  is kept for validation.
\<close>

fun separate ::
  "NdjsonItem list \<Rightarrow> nat \<times> ImportJobError list \<times> (json \<times> nat) list \<Rightarrow>
   nat \<times> ImportJobError list \<times> (json \<times> nat) list" where
  "separate [] acc = acc"
| "separate (item # items) (nfailed, errs, valid) =
     separate items
       (if truthy (item_error item) then
          (nfailed + 1,
           (if length errs < maxErrors
            then errs @ [\<lparr>row = item_lineNumber item, field = None,
                           message = the (item_error item), value_of = None\<rparr>]
            else errs),
           valid)
        else (case item_data item of
                Some d \<Rightarrow> if json_truthy d then (nfailed, errs, valid @ [(d, item_lineNumber item)])
                          else (nfailed, errs, valid)
              | None \<Rightarrow> (nfailed, errs, valid)))"

fun ndjson_loop ::
  "validator \<Rightarrow> upserter \<Rightarrow> ResourceType \<Rightarrow> string \<Rightarrow> NdjsonItem list list \<Rightarrow> nat \<Rightarrow>
   ImportCounts \<Rightarrow> jobs_table \<Rightarrow> ImportCounts \<times> jobs_table" where
  "ndjson_loop V U rt jobId [] batchNumber c db = (c, db)"
| "ndjson_loop V U rt jobId (typedBatch # rest) batchNumber c db =
     (let bn = batchNumber + 1;
          (nfailed, errs, validRecords) = separate typedBatch (res_failedRows c, res_errors c, []);
          c1 = c\<lparr> res_totalRows := res_totalRows c + length typedBatch,
                  res_failedRows := nfailed, res_errors := errs \<rparr>;
          c' = (if validRecords \<noteq> []
                then add_batch c1 (length validRecords)
                       (processBatchWithLineNumbers V U validRecords rt)
                else c1)
      in ndjson_loop V U rt jobId rest bn c' (flush_every_10 bn db jobId c'))"

definition processNDJSONStream ::
  "validator \<Rightarrow> upserter \<Rightarrow> nat \<Rightarrow> jobs_table \<Rightarrow> NdjsonItem list \<Rightarrow> ResourceType \<Rightarrow> string \<Rightarrow>
   ImportCounts \<times> jobs_table" where
  "processNDJSONStream V U batchSize db items rt jobId =
     ndjson_loop V U rt jobId (batches batchSize items) 0 zero_counts db"

text \<open>
  The loop of \<open>processJSONStream\<close>: \<open>for (i = 0; i < data.length; i += batchSize)\<close>,
  with a progress update after every batch. With \<open>batchSize = 0\<close> the index never
  advances and the loop does not return: its value is \<open>None\<close>.
\<close>

function json_loop ::
  "validator \<Rightarrow> upserter \<Rightarrow> nat \<Rightarrow> ResourceType \<Rightarrow> string \<Rightarrow> json list \<Rightarrow> nat \<Rightarrow>
   ImportCounts \<Rightarrow> jobs_table \<Rightarrow> (ImportCounts \<times> jobs_table) option" where
  "json_loop V U batchSize rt jobId xs i c db =
     (if i < length xs then
        (if batchSize = 0 then None
         else
           let batch = take batchSize (drop i xs);
               startRow = i + 1;
               c' = add_batch c (length batch) (processBatch V U batch rt startRow)
           in json_loop V U batchSize rt jobId xs (i + batchSize) c' (flush_counts db jobId c'))
      else Some (c, db))"
  by pat_completeness auto
termination
  by (relation "measure (\<lambda>(V, U, batchSize, rt, jobId, xs, i, c, db). length xs - i)") auto

declare json_loop.simps [simp del]

text \<open>
  \<open>processJSONStream\<close>. The argument is the outcome of \<open>JSON.parse\<close> on the whole
  file: the message of the syntax error, or the value. A thrown error is \<open>Inl\<close>.
\<close>

definition processJSONStream ::
  "validator \<Rightarrow> upserter \<Rightarrow> nat \<Rightarrow> jobs_table \<Rightarrow> string + json \<Rightarrow> ResourceType \<Rightarrow> string \<Rightarrow>
   (string + ImportCounts \<times> jobs_table) option" where
  "processJSONStream V U batchSize db parsed rt jobId =
     (case parsed of
        Inl msg \<Rightarrow> Some (Inl (''Invalid JSON: '' @ msg))
      | Inr (JArr xs) \<Rightarrow>
          map_option Inr
            (json_loop V U batchSize rt jobId xs 0 (zero_counts\<lparr>res_totalRows := length xs\<rparr>) db)
      | Inr _ \<Rightarrow> Some (Inl ''Invalid JSON: JSON file must contain an array of objects''))"

text \<open>
  What the three decoders make of the bytes of one file: the rows of \<open>csv-parse\<close>, the
  items of \<open>NdjsonParseTransform\<close>, the outcome of \<open>JSON.parse\<close>.
\<close>

record FileContent =
  as_csv :: "json list"
  as_ndjson :: "NdjsonItem list"
  as_json :: "string + json"

text \<open>\<open>Math.round(a / b)\<close> on naturals, \<open>b > 0\<close>.\<close>

definition round_div :: "nat \<Rightarrow> nat \<Rightarrow> nat" where
  "round_div a b = (2 * a + b) div (2 * b)"

definition completed_updates :: "ImportCounts \<Rightarrow> nat \<Rightarrow> nat \<Rightarrow> PartialImportJob" where
  "completed_updates c now dur = no_updates\<lparr>
     p_totalRows := Some (res_totalRows c),
     p_processedRows := Some (res_processedRows c),
     p_successfulRows := Some (res_successfulRows c),
     p_failedRows := Some (res_failedRows c),
     p_skippedRows := Some (res_skippedRows c),
     p_errors := Some (take maxErrors (res_errors c)),
     p_completedAt := Some (Some now),
     p_lockedBy := Some None,
     p_lockedAt := Some None,
     p_metrics := Some (Some \<lparr>
        rowsPerSecond = (if dur > 0 then round_div (res_processedRows c * 1000) dur else 0),
        errorRate = (if res_totalRows c > 0 then (res_failedRows c, res_totalRows c) else (0, 1)),
        durationMs = dur \<rparr>) \<rparr>"

definition failed_updates :: "string \<Rightarrow> nat \<Rightarrow> nat \<Rightarrow> PartialImportJob" where
  "failed_updates msg now dur = no_updates\<lparr>
     p_errorMessage := Some (Some msg),
     p_completedAt := Some (Some now),
     p_lockedBy := Some None,
     p_lockedAt := Some None,
     p_metrics := Some (Some \<lparr> rowsPerSecond = 0, errorRate = (1, 1), durationMs = dur \<rparr>) \<rparr>"

text \<open>
  The \<open>catch\<close> of \<open>executeImportProcessing\<close>: finalize as FAILED and rethrow; an
  error thrown by that finalization replaces the first one.
\<close>

definition fail_job ::
  "string option \<Rightarrow> jobs_table \<Rightarrow> string \<Rightarrow> string \<Rightarrow> nat \<Rightarrow> nat \<Rightarrow> string option \<times> jobs_table" where
  "fail_job fault db jobId msg now dur =
     (case finalizeJob fault db jobId FAILED (failed_updates msg now dur) of
        (Threw msg', db') \<Rightarrow> (Some msg', db')
      | (_, db') \<Rightarrow> (Some msg, db'))"

text \<open>
  \<open>executeImportProcessing\<close>. \<open>getStream\<close> and \<open>fetch\<close> open the file from the
  object storage or from the URL (\<open>Inl\<close> is the error they throw); \<open>startTime\<close> and
  \<open>now\<close> are the clock readings. The result is the error thrown to the queue, if any,
  and the jobs table; it is \<open>None\<close> when the JSON loop does not return.
\<close>

definition executeImportProcessing ::
  "string option \<Rightarrow> validator \<Rightarrow> upserter \<Rightarrow> nat \<Rightarrow> (string \<Rightarrow> string + FileContent) \<Rightarrow>
   (string \<Rightarrow> string + FileContent) \<Rightarrow> nat \<Rightarrow> nat \<Rightarrow> jobs_table \<Rightarrow> ImportJob \<Rightarrow>
   ImportJobData \<Rightarrow> (string option \<times> jobs_table) option" where
  "executeImportProcessing fault V U batchSize getStream fetch startTime now db j jobData =
     (let opened =
            (if truthy (jd_filePath jobData) then getStream (the (jd_filePath jobData))
             else if truthy (jd_fileUrl jobData) then fetch (the (jd_fileUrl jobData))
             else Inl ''No file path or URL provided'');
          dur = now - startTime
      in case opened of
           Inl msg \<Rightarrow> Some (fail_job fault db (id_job j) msg now dur)
         | Inr content \<Rightarrow>
             (case (if jd_fileFormat jobData = ''csv'' then
                      Some (Inr (processCSVStream V U batchSize db (as_csv content)
                                   (resourceType j) (id_job j)))
                    else if jd_fileFormat jobData = ''ndjson'' then
                      Some (Inr (processNDJSONStream V U batchSize db (as_ndjson content)
                                   (resourceType j) (id_job j)))
                    else processJSONStream V U batchSize db (as_json content)
                           (resourceType j) (id_job j)) of
                None \<Rightarrow> None
              | Some (Inl msg) \<Rightarrow> Some (fail_job fault db (id_job j) msg now dur)
              | Some (Inr (c, db1)) \<Rightarrow>
                  (case finalizeJob fault db1 (id_job j) COMPLETED (completed_updates c now dur) of
                     (Threw msg, db2) \<Rightarrow> Some (fail_job fault db2 (id_job j) msg now dur)
                   | (_, db2) \<Rightarrow> Some (None, db2))))"

text \<open>
  The updates \<open>processImport\<close> passes to the transition from PENDING to PROCESSING.
\<close>

definition processing_updates :: "string \<Rightarrow> nat \<Rightarrow> PartialImportJob" where
  "processing_updates nodeId now = no_updates\<lparr>
     p_lockedBy := Some (Some nodeId),
     p_lockedAt := Some (Some now),
     p_startedAt := Some (Some now) \<rparr>"

section \<open>Export queries\<close>

text \<open>
  A row of one of the three resource tables, with the columns the export filters and the
  ordering name. A table is the list of its rows in the order in which the store returns
  them when no ordering decides; \<open>ORDER BY\<close> on one column is a stable sort on it, so
  rows that agree on the column stay in that order.
\<close>

record Entity =
  e_id :: string
  e_createdAt :: nat
  e_updatedAt :: nat
  e_active :: bool
  e_status :: string
  e_authorId :: string
  e_articleId :: string
  e_userId :: string

record ExportFiltersDto =
  f_ids :: "string list option"
  f_createdAfter :: "nat option"
  f_createdBefore :: "nat option"
  f_updatedAfter :: "nat option"
  f_updatedBefore :: "nat option"
  f_status :: "string option"
  f_active :: "bool option"
  f_authorId :: "string option"
  f_articleId :: "string option"
  f_userId :: "string option"

datatype column = C_id | C_createdAt | C_updatedAt | C_active | C_status | C_authorId
  | C_articleId | C_userId

datatype comparison = Ge | Le | Eq | In

datatype sqlval = VDate nat | VStr string | VBool bool | VList "string list"

fun col_val :: "Entity \<Rightarrow> column \<Rightarrow> sqlval" where
  "col_val e C_id = VStr (e_id e)"
| "col_val e C_createdAt = VDate (e_createdAt e)"
| "col_val e C_updatedAt = VDate (e_updatedAt e)"
| "col_val e C_active = VBool (e_active e)"
| "col_val e C_status = VStr (e_status e)"
| "col_val e C_authorId = VStr (e_authorId e)"
| "col_val e C_articleId = VStr (e_articleId e)"
| "col_val e C_userId = VStr (e_userId e)"

fun holds :: "comparison \<Rightarrow> sqlval \<Rightarrow> sqlval \<Rightarrow> bool" where
  "holds Ge (VDate a) (VDate b) = (a \<ge> b)"
| "holds Le (VDate a) (VDate b) = (a \<le> b)"
| "holds Eq a b = (a = b)"
| "holds In (VStr s) (VList l) = (s \<in> set l)"
| "holds _ _ _ = False"

text \<open>
  A condition \<open>alias.column op :name\<close> of a query builder, and the builder: its
  conditions, its named parameters, its ordering and its page.
\<close>

record Condition =
  w_column :: column
  w_cmp :: comparison
  w_param :: string

record QueryBuilder =
  wheres :: "Condition list"
  parameters :: "(string \<times> sqlval) list"
  orderBy :: "column option"
  skip_n :: nat
  take_n :: nat

definition createQueryBuilder :: QueryBuilder where
  "createQueryBuilder = \<lparr>wheres = [], parameters = [], orderBy = None, skip_n = 0, take_n = 0\<rparr>"

text \<open>\<open>qb.andWhere(condition, parameters)\<close>: the parameters are merged, later ones win.\<close>

definition andWhere ::
  "QueryBuilder \<Rightarrow> column \<Rightarrow> comparison \<Rightarrow> string \<Rightarrow> (string \<times> sqlval) list \<Rightarrow> QueryBuilder" where
  "andWhere qb c cmp name ps =
     qb\<lparr>wheres := wheres qb @ [\<lparr>w_column = c, w_cmp = cmp, w_param = name\<rparr>],
        parameters := ps @ parameters qb\<rparr>"

text \<open>
  Running a query. A placeholder for which no parameter of that name was given is left
  in the SQL text as it is, and the database rejects the statement: the query throws.
\<close>

fun where_pred :: "(string \<times> sqlval) list \<Rightarrow> Condition list \<Rightarrow> string + (Entity \<Rightarrow> bool)" where
  "where_pred ps [] = Inr (\<lambda>e. True)"
| "where_pred ps (w # ws) =
     (case map_of ps (w_param w) of
        None \<Rightarrow> Inl (''syntax error at or near :'' @ w_param w)
      | Some v \<Rightarrow>
          (case where_pred ps ws of
             Inl err \<Rightarrow> Inl err
           | Inr P \<Rightarrow> Inr (\<lambda>e. holds (w_cmp w) (col_val e (w_column w)) v \<and> P e)))"

definition order_rows :: "column option \<Rightarrow> Entity list \<Rightarrow> Entity list" where
  "order_rows c rows =
     (case c of
        Some C_createdAt \<Rightarrow> sort_key e_createdAt rows
      | Some C_updatedAt \<Rightarrow> sort_key e_updatedAt rows
      | _ \<Rightarrow> rows)"

text \<open>\<open>LIMIT\<close> is only emitted for a non-zero \<open>take\<close>.\<close>

definition limit_rows :: "nat \<Rightarrow> Entity list \<Rightarrow> Entity list" where
  "limit_rows n rows = (if n = 0 then rows else take n rows)"

definition getCount :: "Entity list \<Rightarrow> QueryBuilder \<Rightarrow> string + nat" where
  "getCount table qb =
     (case where_pred (parameters qb) (wheres qb) of
        Inl err \<Rightarrow> Inl err
      | Inr P \<Rightarrow> Inr (length (filter P table)))"

definition getMany :: "Entity list \<Rightarrow> QueryBuilder \<Rightarrow> string + Entity list" where
  "getMany table qb =
     (case where_pred (parameters qb) (wheres qb) of
        Inl err \<Rightarrow> Inl err
      | Inr P \<Rightarrow>
          Inr (limit_rows (take_n qb) (drop (skip_n qb) (order_rows (orderBy qb) (filter P table)))))"

text \<open>\<open>applyCommonFilters\<close>.\<close>

definition applyCommonFilters :: "QueryBuilder \<Rightarrow> ExportFiltersDto option \<Rightarrow> QueryBuilder" where
  "applyCommonFilters qb filters =
     (case filters of
        None \<Rightarrow> qb
      | Some f \<Rightarrow>
          let qb1 = (case f_ids f of
                       Some ids \<Rightarrow> if ids \<noteq> [] then andWhere qb C_id In ''ids'' [(''ids'', VList ids)]
                                   else qb
                     | None \<Rightarrow> qb);
              qb2 = (case f_createdAfter f of
                       Some d \<Rightarrow> andWhere qb1 C_createdAt Ge ''createdAfter'' [(''createdAt'', VDate d)]
                     | None \<Rightarrow> qb1);
              qb3 = (case f_createdBefore f of
                       Some d \<Rightarrow> andWhere qb2 C_createdAt Le ''createdBefore''
                                   [(''createdBefore'', VDate d)]
                     | None \<Rightarrow> qb2);
              qb4 = (case f_updatedAfter f of
                       Some d \<Rightarrow> andWhere qb3 C_updatedAt Ge ''updatedAfter''
                                   [(''updatedAfter'', VDate d)]
                     | None \<Rightarrow> qb3);
              qb5 = (case f_updatedBefore f of
                       Some d \<Rightarrow> andWhere qb4 C_updatedAt Le ''updatedBefore''
                                   [(''updatedBefore'', VDate d)]
                     | None \<Rightarrow> qb4)
          in qb5)"

text \<open>\<open>fetchUsers\<close>, \<open>fetchArticles\<close>, \<open>fetchComments\<close> and their dispatch.\<close>

definition fetchUsers :: "Entity list \<Rightarrow> ExportFiltersDto option \<Rightarrow> nat \<Rightarrow> nat \<Rightarrow> string + Entity list" where
  "fetchUsers table filters offset limit =
     (let qb = applyCommonFilters createQueryBuilder filters;
          qb1 = (case filters of
                   Some f \<Rightarrow> (case f_active f of
                                Some a \<Rightarrow> andWhere qb C_active Eq ''active'' [(''active'', VBool a)]
                              | None \<Rightarrow> qb)
                 | None \<Rightarrow> qb)
      in getMany table (qb1\<lparr>orderBy := Some C_createdAt, skip_n := offset, take_n := limit\<rparr>))"

definition fetchArticles :: "Entity list \<Rightarrow> ExportFiltersDto option \<Rightarrow> nat \<Rightarrow> nat \<Rightarrow> string + Entity list" where
  "fetchArticles table filters offset limit =
     (let qb = applyCommonFilters createQueryBuilder filters;
          qb1 = (case filters of
                   Some f \<Rightarrow> if truthy (f_status f)
                             then andWhere qb C_status Eq ''status''
                                    [(''status'', VStr (the (f_status f)))]
                             else qb
                 | None \<Rightarrow> qb);
          qb2 = (case filters of
                   Some f \<Rightarrow> if truthy (f_authorId f)
                             then andWhere qb1 C_authorId Eq ''authorId''
                                    [(''authorId'', VStr (the (f_authorId f)))]
                             else qb1
                 | None \<Rightarrow> qb1)
      in getMany table (qb2\<lparr>orderBy := Some C_createdAt, skip_n := offset, take_n := limit\<rparr>))"

definition fetchComments :: "Entity list \<Rightarrow> ExportFiltersDto option \<Rightarrow> nat \<Rightarrow> nat \<Rightarrow> string + Entity list" where
  "fetchComments table filters offset limit =
     (let qb = applyCommonFilters createQueryBuilder filters;
          qb1 = (case filters of
                   Some f \<Rightarrow> if truthy (f_articleId f)
                             then andWhere qb C_articleId Eq ''articleId''
                                    [(''articleId'', VStr (the (f_articleId f)))]
                             else qb
                 | None \<Rightarrow> qb);
          qb2 = (case filters of
                   Some f \<Rightarrow> if truthy (f_userId f)
                             then andWhere qb1 C_userId Eq ''userId''
                                    [(''userId'', VStr (the (f_userId f)))]
                             else qb1
                 | None \<Rightarrow> qb1)
      in getMany table (qb2\<lparr>orderBy := Some C_createdAt, skip_n := offset, take_n := limit\<rparr>))"

definition fetchRecordsBatch ::
  "Entity list \<Rightarrow> ResourceType \<Rightarrow> ExportFiltersDto option \<Rightarrow> nat \<Rightarrow> nat \<Rightarrow> string + Entity list" where
  "fetchRecordsBatch table rt filters offset limit =
     (case rt of
        USERS \<Rightarrow> fetchUsers table filters offset limit
      | ARTICLES \<Rightarrow> fetchArticles table filters offset limit
      | COMMENTS \<Rightarrow> fetchComments table filters offset limit)"

text \<open>\<open>countRecords\<close>: each branch builds its conditions again and counts.\<close>

definition countRecords :: "Entity list \<Rightarrow> ResourceType \<Rightarrow> ExportFiltersDto option \<Rightarrow> string + nat" where
  "countRecords table rt filters =
     (case rt of
        USERS \<Rightarrow>
          (let qb = applyCommonFilters createQueryBuilder filters;
               qb1 = (case filters of
                        Some f \<Rightarrow> (case f_active f of
                                     Some a \<Rightarrow> andWhere qb C_active Eq ''active'' [(''active'', VBool a)]
                                   | None \<Rightarrow> qb)
                      | None \<Rightarrow> qb)
           in getCount table qb1)
      | ARTICLES \<Rightarrow>
          (let qb = applyCommonFilters createQueryBuilder filters;
               qb1 = (case filters of
                        Some f \<Rightarrow> if truthy (f_status f)
                                  then andWhere qb C_status Eq ''status''
                                         [(''status'', VStr (the (f_status f)))]
                                  else qb
                      | None \<Rightarrow> qb);
               qb2 = (case filters of
                        Some f \<Rightarrow> if truthy (f_authorId f)
                                  then andWhere qb1 C_authorId Eq ''authorId''
                                         [(''authorId'', VStr (the (f_authorId f)))]
                                  else qb1
                      | None \<Rightarrow> qb1)
           in getCount table qb2)
      | COMMENTS \<Rightarrow>
          (let qb = applyCommonFilters createQueryBuilder filters;
               qb1 = (case filters of
                        Some f \<Rightarrow> if truthy (f_articleId f)
                                  then andWhere qb C_articleId Eq ''articleId''
                                         [(''articleId'', VStr (the (f_articleId f)))]
                                  else qb
                      | None \<Rightarrow> qb);
               qb2 = (case filters of
                        Some f \<Rightarrow> if truthy (f_userId f)
                                  then andWhere qb1 C_userId Eq ''userId''
                                         [(''userId'', VStr (the (f_userId f)))]
                                  else qb1
                      | None \<Rightarrow> qb1)
           in getCount table qb2))"

text \<open>
  \<open>streamRecords\<close>: pages of \<open>batchSize\<close> rows are fetched at growing offsets and
  written to the output until a page is empty or short. The result is the rows written
  and the error that ended the stream, if a fetch threw.
\<close>

function stream_loop ::
  "Entity list \<Rightarrow> nat \<Rightarrow> ResourceType \<Rightarrow> ExportFiltersDto option \<Rightarrow> nat \<Rightarrow> Entity list \<Rightarrow>
   Entity list \<times> string option" where
  "stream_loop table batchSize rt filters offset out =
     (case fetchRecordsBatch table rt filters offset batchSize of
        Inl err \<Rightarrow> (out, Some err)
      | Inr records \<Rightarrow>
          if length records = 0 then (out, None)
          else if length records = batchSize
               then stream_loop table batchSize rt filters (offset + length records) (out @ records)
               else (out @ records, None))"
  by pat_completeness auto
termination
proof (relation "measure (\<lambda>(table, batchSize, rt, filters, offset, out). length table - offset)")
  show "wf (measure (\<lambda>(table, batchSize, rt, filters, offset, out). length table - offset))"
    by simp
next
  fix table :: "Entity list" and batchSize rt filters offset and out :: "Entity list" and records
  assume f: "fetchRecordsBatch table rt filters offset batchSize = Inr records"
    and n: "length records \<noteq> 0"
  from f obtain P where
    r: "records = limit_rows batchSize (drop offset (order_rows (Some C_createdAt) (filter P table)))"
    by (auto simp: fetchRecordsBatch_def fetchUsers_def fetchArticles_def fetchComments_def
          getMany_def Let_def split: sum.splits ResourceType.splits)
  have "drop offset (order_rows (Some C_createdAt) (filter P table)) \<noteq> []"
    using n r by (auto simp: limit_rows_def split: if_splits)
  then have "offset < length (filter P table)"
    by (simp add: order_rows_def)
  also have "\<dots> \<le> length table" by simp
  finally have "offset < length table" .
  moreover have "0 < length records" using n by simp
  ultimately have "length table - (offset + length records) < length table - offset"
    by linarith
  then show "((table, batchSize, rt, filters, offset + length records, out @ records),
         (table, batchSize, rt, filters, offset, out))
        \<in> measure (\<lambda>(table, batchSize, rt, filters, offset, out). length table - offset)"
    by simp
qed

declare stream_loop.simps [simp del]

definition streamRecords ::
  "Entity list \<Rightarrow> nat \<Rightarrow> ResourceType \<Rightarrow> ExportFiltersDto option \<Rightarrow> Entity list \<times> string option" where
  "streamRecords table batchSize rt filters = stream_loop table batchSize rt filters 0 []"

section \<open>Distributed lock and job orchestration\<close>

text \<open>
  The key-value store of the lock service maps a key to the token stored under it. The
  expiry of a key is not a clock here but an event of its own (see \<open>Expire\<close> below).
\<close>

type_synonym redis = "string \<rightharpoonup> string"

record Lock =
  lock_key :: string
  lock_token :: string

text \<open>\<open>SET key token PX ttl NX\<close>: stores the token only if the key is absent.\<close>

definition set_nx :: "redis \<Rightarrow> string \<Rightarrow> string \<Rightarrow> bool \<times> redis" where
  "set_nx r k v = (case r k of None \<Rightarrow> (True, r(k \<mapsto> v)) | Some _ \<Rightarrow> (False, r))"

text \<open>
  The attempts of \<open>acquireLock\<close>: \<open>retries + 1\<close> tries of the atomic set; the first that
  stores the token returns the lock.
\<close>

fun acquire_attempts :: "redis \<Rightarrow> string \<Rightarrow> string \<Rightarrow> nat \<Rightarrow> Lock option \<times> redis" where
  "acquire_attempts r lockKey token 0 =
     (case set_nx r lockKey token of
        (True, r') \<Rightarrow> (Some \<lparr>lock_key = lockKey, lock_token = token\<rparr>, r')
      | (False, r') \<Rightarrow> (None, r'))"
| "acquire_attempts r lockKey token (Suc retries) =
     (case set_nx r lockKey token of
        (True, r') \<Rightarrow> (Some \<lparr>lock_key = lockKey, lock_token = token\<rparr>, r')
      | (False, r') \<Rightarrow> acquire_attempts r' lockKey token retries)"

definition acquireLock :: "redis \<Rightarrow> string \<Rightarrow> string \<Rightarrow> nat \<Rightarrow> Lock option \<times> redis" where
  "acquireLock r resourceKey token retries =
     acquire_attempts r (''lock:'' @ resourceKey) token retries"

text \<open>\<open>releaseLock\<close>: the script deletes the key only if it still holds the token.\<close>

definition releaseLock :: "redis \<Rightarrow> Lock \<Rightarrow> bool \<times> redis" where
  "releaseLock r l =
     (if r (lock_key l) = Some (lock_token l) then (True, r(lock_key l := None)) else (False, r))"

text \<open>
  \<open>processImport\<close> on several nodes. Each node runs the function as a sequence of
  atomic actions on the shared lock store and jobs table: the acquire, the status
  transition, the writes of the pipeline (progress updates and finalizations), the end
  of the pipeline, the release in \<open>finally\<close>. A worker records where it is and what it
  has seen.
\<close>

datatype pc = Start | Locked | Running | Releasing | Exited

record worker =
  pc :: pc
  lock :: "Lock option"
  acquired :: bool
  observed_pending :: bool
  executed :: bool

definition idle_worker :: worker where
  "idle_worker = \<lparr>pc = Start, lock = None, acquired = False, observed_pending = False,
     executed = False\<rparr>"

record cluster =
  redis_of :: redis
  db_of :: jobs_table
  workers :: "string \<Rightarrow> worker"

datatype action =
    Acquire string
  | Transition string "string option" nat
  | Progress string nat nat nat nat nat
  | Complete string "string option" ImportCounts nat nat
  | Fail string "string option" string nat nat
  | Finish string
  | Release string
  | Expire string

fun actor :: "action \<Rightarrow> string option" where
  "actor (Acquire n) = Some n"
| "actor (Transition n fault now) = Some n"
| "actor (Progress n t p s f k) = Some n"
| "actor (Complete n fault c now dur) = Some n"
| "actor (Fail n fault msg now dur) = Some n"
| "actor (Finish n) = Some n"
| "actor (Release n) = Some n"
| "actor (Expire k) = None"

definition set_worker :: "cluster \<Rightarrow> string \<Rightarrow> worker \<Rightarrow> cluster" where
  "set_worker s n w = s\<lparr>workers := (workers s)(n := w)\<rparr>"

text \<open>
  One action on the job \<open>jobId\<close>; \<open>tok n\<close> is the lock token of node \<open>n\<close>. An action
  that the node cannot take where it stands has no result.
\<close>

fun perform :: "string \<Rightarrow> (string \<Rightarrow> string) \<Rightarrow> action \<Rightarrow> cluster \<Rightarrow> cluster option" where
  "perform jobId tok (Acquire n) s =
     (if pc (workers s n) \<noteq> Start then None
      else case acquireLock (redis_of s) (''import-job:'' @ jobId) (tok n) 0 of
             (None, r') \<Rightarrow>
               Some (set_worker (s\<lparr>redis_of := r'\<rparr>) n ((workers s n)\<lparr>pc := Exited\<rparr>))
           | (Some l, r') \<Rightarrow>
               Some (set_worker (s\<lparr>redis_of := r'\<rparr>) n
                       ((workers s n)\<lparr>pc := Locked, lock := Some l, acquired := True\<rparr>)))"
| "perform jobId tok (Transition n fault now) s =
     (if pc (workers s n) \<noteq> Locked then None
      else case atomicStatusTransition fault (db_of s) jobId PENDING PROCESSING
                  (Some (processing_updates n now)) of
             (res, db') \<Rightarrow>
               Some (set_worker (s\<lparr>db_of := db'\<rparr>) n
                       ((workers s n)\<lparr>
                          pc := (if success res then Running else Releasing),
                          observed_pending :=
                            (case getOne (db_of s) jobId of
                               Some j \<Rightarrow> status j = PENDING | None \<Rightarrow> False),
                          executed := success res\<rparr>)))"
| "perform jobId tok (Progress n t p sc f k) s =
     (if pc (workers s n) \<noteq> Running then None
      else Some (s\<lparr>db_of := updateJobProgress (db_of s) jobId t p sc f k\<rparr>))"
| "perform jobId tok (Complete n fault c now dur) s =
     (if pc (workers s n) \<noteq> Running then None
      else Some (s\<lparr>db_of := snd (finalizeJob fault (db_of s) jobId COMPLETED
                                     (completed_updates c now dur))\<rparr>))"
| "perform jobId tok (Fail n fault msg now dur) s =
     (if pc (workers s n) \<noteq> Running then None
      else Some (s\<lparr>db_of := snd (finalizeJob fault (db_of s) jobId FAILED
                                     (failed_updates msg now dur))\<rparr>))"
| "perform jobId tok (Finish n) s =
     (if pc (workers s n) \<noteq> Running then None
      else Some (set_worker s n ((workers s n)\<lparr>pc := Releasing\<rparr>)))"
| "perform jobId tok (Release n) s =
     (if pc (workers s n) \<noteq> Releasing then None
      else case lock (workers s n) of
             None \<Rightarrow> None
           | Some l \<Rightarrow>
               Some (set_worker (s\<lparr>redis_of := snd (releaseLock (redis_of s) l)\<rparr>) n
                       ((workers s n)\<lparr>pc := Exited\<rparr>)))"
| "perform jobId tok (Expire k) s = Some (s\<lparr>redis_of := (redis_of s)(k := None)\<rparr>)"

text \<open>A run: the actions of all nodes in the order in which they take effect.\<close>

fun run :: "string \<Rightarrow> (string \<Rightarrow> string) \<Rightarrow> action list \<Rightarrow> cluster \<Rightarrow> cluster option" where
  "run jobId tok [] s = Some s"
| "run jobId tok (a # as) s =
     (case perform jobId tok a s of None \<Rightarrow> None | Some s' \<Rightarrow> run jobId tok as s')"

section \<open>CSV decoding\<close>













section \<open>Sample data\<close>

text \<open>Concrete rows and updates on which the theorems below are instantiated.\<close>

definition sample_job :: "ImportJobStatus \<Rightarrow> string option \<Rightarrow> ImportJob" where
  "sample_job st holder = \<lparr> id_job = ''j1'', idempotencyKey = None, resourceType = USERS,
     status = st, fileUrl = Some ''imports/j1/users.ndjson'', fileName = Some ''users.ndjson'',
     fileSize = Some 10, fileFormat = Some ''ndjson'', totalRows = 0, processedRows = 0,
     successfulRows = 0, failedRows = 0, skippedRows = 0, errors = [], metrics = None,
     errorMessage = None, startedAt = Some 5, completedAt = None, lockedBy = holder,
     lockedAt = Some 5, version = 3 \<rparr>"





definition bad_line :: NdjsonItem where
  "bad_line = \<lparr>item_data = None,
     item_error = Some ''Invalid JSON at line 1: Unexpected token b in JSON at position 1'',
     item_lineNumber = 1\<rparr>"

definition bad_file :: "string \<Rightarrow> string + FileContent" where
  "bad_file path = Inr \<lparr>as_csv = [], as_ndjson = [bad_line],
     as_json = Inl ''Unexpected token b in JSON at position 1''\<rparr>"

definition sample_jobData :: ImportJobData where
  "sample_jobData = \<lparr>jd_jobId = ''j1'', jd_resourceType = USERS, jd_fileUrl = None,
     jd_filePath = Some ''imports/j1/users.ndjson'', jd_fileFormat = ''ndjson'',
     jd_idempotencyKey = None\<rparr>"

text \<open>The job row after the import of that file has completed.\<close>

definition bad_line_job :: ImportJob where
  "bad_line_job = (sample_job COMPLETED None)\<lparr> totalRows := 1, failedRows := 1,
        errors := [\<lparr>row = 1, field = None,
           message = ''Invalid JSON at line 1: Unexpected token b in JSON at position 1'',
           value_of = None\<rparr>],
        metrics := Some \<lparr>rowsPerSecond = 0, errorRate = (1, 1), durationMs = 7\<rparr>,
        completedAt := Some 7, lockedAt := None, version := 4 \<rparr>"

text \<open>
  A users table in which two rows were created at the same instant and are stored with
  the larger identifier first, and filters with one bound each.
\<close>

definition user_row :: "string \<Rightarrow> nat \<Rightarrow> Entity" where
  "user_row i t = \<lparr>e_id = i, e_createdAt = t, e_updatedAt = t, e_active = True,
     e_status = [], e_authorId = [], e_articleId = [], e_userId = []\<rparr>"

definition tied_users :: "Entity list" where
  "tied_users = [user_row ''b'' 5, user_row ''a'' 5, user_row ''c'' 3]"

definition no_filters :: ExportFiltersDto where
  "no_filters = \<lparr>f_ids = None, f_createdAfter = None, f_createdBefore = None,
     f_updatedAfter = None, f_updatedBefore = None, f_status = None, f_active = None,
     f_authorId = None, f_articleId = None, f_userId = None\<rparr>"

definition created_after_4 :: ExportFiltersDto where
  "created_after_4 = no_filters\<lparr>f_createdAfter := Some 4\<rparr>"

definition created_before_4 :: ExportFiltersDto where
  "created_before_4 = no_filters\<lparr>f_createdBefore := Some 4\<rparr>"

text \<open>Two nodes at the start, the lock free, one pending job.\<close>

definition two_nodes :: cluster where
  "two_nodes = \<lparr>redis_of = Map.empty, db_of = [sample_job PENDING None],
     workers = (\<lambda>n. idle_worker)\<rparr>"

definition token_of :: "string \<Rightarrow> string" where
  "token_of n = n @ '':token''"

definition sample_run :: "action list" where
  "sample_run = [Acquire ''node-A'', Acquire ''node-B'', Transition ''node-A'' None 5,
     Complete ''node-A'' None zero_counts 9 4, Finish ''node-A'', Release ''node-A'']"





section \<open>Reference functions\<close>

text \<open>The format that belongs to an extension, as the format detection is described.\<close>

definition format_of_ext :: "string \<Rightarrow> string" where
  "format_of_ext e =
     (if toLowerCase e = ''csv'' then ''csv''
      else if toLowerCase e = ''ndjson'' \<or> toLowerCase e = ''jsonl'' then ''ndjson''
      else ''json'')"


text \<open>
  The conditions a resource puts on its export, built once: the common filters, then the
  filters of the resource.
\<close>

definition resource_where :: "ResourceType \<Rightarrow> ExportFiltersDto option \<Rightarrow> QueryBuilder" where
  "resource_where rt filters =
     (let qb = applyCommonFilters createQueryBuilder filters
      in case filters of
           None \<Rightarrow> qb
         | Some f \<Rightarrow>
             (case rt of
                USERS \<Rightarrow>
                  (case f_active f of
                     Some a \<Rightarrow> andWhere qb C_active Eq ''active'' [(''active'', VBool a)]
                   | None \<Rightarrow> qb)
              | ARTICLES \<Rightarrow>
                  (let qb1 = (if truthy (f_status f)
                              then andWhere qb C_status Eq ''status''
                                     [(''status'', VStr (the (f_status f)))]
                              else qb)
                   in if truthy (f_authorId f)
                      then andWhere qb1 C_authorId Eq ''authorId''
                             [(''authorId'', VStr (the (f_authorId f)))]
                      else qb1)
              | COMMENTS \<Rightarrow>
                  (let qb1 = (if truthy (f_articleId f)
                              then andWhere qb C_articleId Eq ''articleId''
                                     [(''articleId'', VStr (the (f_articleId f)))]
                              else qb)
                   in if truthy (f_userId f)
                      then andWhere qb1 C_userId Eq ''userId''
                             [(''userId'', VStr (the (f_userId f)))]
                      else qb1)))"

text \<open>The rows a query with these conditions selects, or the error it throws.\<close>

definition selected :: "Entity list \<Rightarrow> QueryBuilder \<Rightarrow> string + Entity list" where
  "selected table qb =
     (case where_pred (parameters qb) (wheres qb) of
        Inl err \<Rightarrow> Inl err
      | Inr P \<Rightarrow> Inr (filter P table))"

text \<open>The filters as they are meant: each bound compares the column it names.\<close>

definition matches :: "ResourceType \<Rightarrow> ExportFiltersDto option \<Rightarrow> Entity \<Rightarrow> bool" where
  "matches rt filters e =
     (case filters of
        None \<Rightarrow> True
      | Some f \<Rightarrow>
          (case f_ids f of None \<Rightarrow> True
             | Some ids \<Rightarrow> if ids = [] then True else e_id e \<in> set ids)
          \<and> (case f_createdAfter f of None \<Rightarrow> True | Some d \<Rightarrow> d \<le> e_createdAt e)
          \<and> (case f_createdBefore f of None \<Rightarrow> True | Some d \<Rightarrow> e_createdAt e \<le> d)
          \<and> (case f_updatedAfter f of None \<Rightarrow> True | Some d \<Rightarrow> d \<le> e_updatedAt e)
          \<and> (case f_updatedBefore f of None \<Rightarrow> True | Some d \<Rightarrow> e_updatedAt e \<le> d)
          \<and> (case rt of
                 USERS \<Rightarrow> (case f_active f of None \<Rightarrow> True | Some a \<Rightarrow> e_active e = a)
               | ARTICLES \<Rightarrow>
                   (if truthy (f_status f) then e_status e = the (f_status f) else True)
                   \<and> (if truthy (f_authorId f) then e_authorId e = the (f_authorId f) else True)
               | COMMENTS \<Rightarrow>
                   (if truthy (f_articleId f) then e_articleId e = the (f_articleId f) else True)
                   \<and> (if truthy (f_userId f) then e_userId e = the (f_userId f) else True)))"

text \<open>
  A query builder whose placeholders are all bound, with parameter names among \<open>N\<close>,
  and whose conditions together say \<open>Q\<close>.
\<close>

definition bound_sem :: "string set \<Rightarrow> QueryBuilder \<Rightarrow> (Entity \<Rightarrow> bool) \<Rightarrow> bool" where
  "bound_sem N qb Q =
     (list_all (\<lambda>w. w_param w \<in> fst ` set (parameters qb)) (wheres qb)
      \<and> fst ` set (parameters qb) \<subseteq> N
      \<and> (\<forall>e. list_all (\<lambda>w. holds (w_cmp w) (col_val e (w_column w))
                               (the (map_of (parameters qb) (w_param w)))) (wheres qb) = Q e))"


text \<open>
  What holds in every state of a run: a worker in the pipeline has executed; a worker
  that executed holds the lock it acquired and saw PENDING; at most one worker executed,
  and then the job is no longer PENDING.
\<close>

definition run_inv :: "string \<Rightarrow> cluster \<Rightarrow> bool" where
  "run_inv jobId s =
     ((\<forall>n. (pc (workers s n) = Running \<longrightarrow> executed (workers s n))
           \<and> (pc (workers s n) = Start \<longrightarrow> \<not> executed (workers s n))
           \<and> (pc (workers s n) = Locked \<longrightarrow> \<not> executed (workers s n) \<and> acquired (workers s n))
           \<and> (executed (workers s n) \<longrightarrow>
                acquired (workers s n) \<and> observed_pending (workers s n)))
      \<and> (\<forall>n m. executed (workers s n) \<and> executed (workers s m) \<longrightarrow> n = m)
      \<and> ((\<exists>n. executed (workers s n)) \<longrightarrow>
            (\<exists>j. getOne (db_of s) jobId = Some j \<and> status j \<noteq> PENDING)))"




section \<open>Properties of the job store\<close>

lemma id_job_assign [simp]: "id_job (assign j u) = id_job j"
  by (simp add: assign_def)

lemma version_assign [simp]: "version (assign j u) = version j"
  by (simp add: assign_def)

lemma getOne_id: "getOne db k = Some j \<Longrightarrow> id_job j = k"
  by (auto simp: getOne_def find_Some_iff)

lemma getOne_save_same:
  "getOne db k = Some j \<Longrightarrow> id_job j2 = k \<Longrightarrow> getOne (save db j2) k = Some (bump j2)"
  by (induction db) (auto simp: getOne_def save_def bump_def split: if_splits)

lemma getOne_save_other:
  "k \<noteq> id_job j2 \<Longrightarrow> getOne (save db j2) k = getOne db k"
  by (induction db) (auto simp: getOne_def save_def bump_def)




text \<open>
  Claim C3, as the code has it. Finalizing a job that does not exist throws. Finalizing a
  job that is not in PROCESSING is refused with a warning and changes nothing. Finalizing
  a job in PROCESSING, whoever holds it, sets the terminal status and applies the updates
  on top; \<open>lockedBy\<close> and \<open>lockedAt\<close> are cleared when the updates carry them as
  null, as the updates of both callers do, and kept when the updates leave them out.
\<close>

theorem finalizeJob_cases:
  "(getOne db jobId = None \<longrightarrow>
      finalizeJob fault db jobId st upd =
        (Threw (''Job '' @ jobId @ '' not found during finalization''), db))
   \<and> (\<forall>j. getOne db jobId = Some j \<and> status j \<noteq> PROCESSING \<longrightarrow>
        (\<exists>warning. finalizeJob fault db jobId st upd = (Refused warning, db)))
   \<and> (\<forall>j. getOne db jobId = Some j \<and> status j = PROCESSING \<longrightarrow>
       (let j' = bump (assign (j\<lparr>status := st\<rparr>) upd);
            res = finalizeJob None db jobId st upd
        in fst res = Finalized
           \<and> getOne (snd res) jobId = Some j'
           \<and> (p_status upd = None \<longrightarrow> status j' = st)
           \<and> (p_lockedBy upd = Some None \<and> p_lockedAt upd = Some None \<longrightarrow>
                lockedBy j' = None \<and> lockedAt j' = None)
           \<and> (p_lockedBy upd = None \<longrightarrow> lockedBy j' = lockedBy j)
           \<and> (\<forall>k. k \<noteq> jobId \<longrightarrow> getOne (snd res) k = getOne db k)))"
proof (intro conjI allI impI)
  assume "getOne db jobId = None"
  then show "finalizeJob fault db jobId st upd =
        (Threw (''Job '' @ jobId @ '' not found during finalization''), db)"
    by (simp add: finalizeJob_def)
next
  fix j assume "getOne db jobId = Some j \<and> status j \<noteq> PROCESSING"
  then show "\<exists>warning. finalizeJob fault db jobId st upd = (Refused warning, db)"
    by (simp add: finalizeJob_def)
next
  fix j assume a: "getOne db jobId = Some j \<and> status j = PROCESSING"
  define j2 where "j2 = assign (j\<lparr>status := st\<rparr>) upd"
  have id2: "id_job j2 = jobId" using a getOne_id[of db jobId j] by (simp add: j2_def)
  have res: "finalizeJob None db jobId st upd = (Finalized, save db j2)"
    using a by (simp add: finalizeJob_def j2_def Let_def)
  have g: "getOne (save db j2) jobId = Some (bump j2)"
    using a id2 getOne_save_same by blast
  have o: "\<forall>k. k \<noteq> jobId \<longrightarrow> getOne (save db j2) k = getOne db k"
    using id2 getOne_save_other by blast
  have s: "p_status upd = None \<longrightarrow> status (bump j2) = st"
    by (simp add: j2_def bump_def assign_def or_keep_def)
  have l: "p_lockedBy upd = Some None \<and> p_lockedAt upd = Some None \<longrightarrow>
           lockedBy (bump j2) = None \<and> lockedAt (bump j2) = None"
    by (simp add: j2_def bump_def assign_def or_keep_def)
  have k: "p_lockedBy upd = None \<longrightarrow> lockedBy (bump j2) = lockedBy j"
    by (simp add: j2_def bump_def assign_def or_keep_def)
  show "let j' = bump (assign (j\<lparr>status := st\<rparr>) upd);
            res = finalizeJob None db jobId st upd
        in fst res = Finalized
           \<and> getOne (snd res) jobId = Some j'
           \<and> (p_status upd = None \<longrightarrow> status j' = st)
           \<and> (p_lockedBy upd = Some None \<and> p_lockedAt upd = Some None \<longrightarrow>
                lockedBy j' = None \<and> lockedAt j' = None)
           \<and> (p_lockedBy upd = None \<longrightarrow> lockedBy j' = lockedBy j)
           \<and> (\<forall>k. k \<noteq> jobId \<longrightarrow> getOne (snd res) k = getOne db k)"
    unfolding Let_def j2_def[symmetric] res fst_conv snd_conv
    using g o s l k by simp
qed

text \<open>The three cases of C3 on a table of one job.\<close>

theorem finalizeJob_cases_witness:
  "getOne [] ''j1'' = None
   \<and> finalizeJob None [] ''j1'' COMPLETED no_updates =
        (Threw ''Job j1 not found during finalization'', [])
   \<and> getOne [sample_job PENDING None] ''j1'' = Some (sample_job PENDING None)
   \<and> snd (finalizeJob None [sample_job PENDING None] ''j1'' COMPLETED no_updates) =
        [sample_job PENDING None]
   \<and> getOne [sample_job PROCESSING (Some ''node-A'')] ''j1'' = Some (sample_job PROCESSING (Some ''node-A''))
   \<and> finalizeJob None [sample_job PROCESSING (Some ''node-A'')] ''j1'' FAILED
          (failed_updates ''boom'' 9 7) =
        (Finalized, [(sample_job FAILED None)\<lparr> errorMessage := Some ''boom'',
            completedAt := Some 9, lockedAt := None, metrics := Some \<lparr>rowsPerSecond = 0, errorRate = (1, 1), durationMs = 7\<rparr>,
            version := 4 \<rparr>])"
  using finalizeJob_cases[of "[]" "''j1''" None COMPLETED no_updates]
    finalizeJob_cases[of "[sample_job PENDING None]" "''j1''" None COMPLETED no_updates]
    finalizeJob_cases[of "[sample_job PROCESSING (Some ''node-A'')]" "''j1''" None FAILED
        "failed_updates ''boom'' 9 7"]
  by (simp add: getOne_def finalizeJob_def sample_job_def bump_def Let_def save_def assign_def
        failed_updates_def completed_updates_def zero_counts_def no_updates_def or_keep_def)

text \<open>
  C3 as stated fails: a job in PROCESSING whose \<open>lockedBy\<close> names node B is still
  finalized by a call made on behalf of another node; the row is not left unchanged.
\<close>

theorem finalizeJob_other_holder_counterexample:
  "status (sample_job PROCESSING (Some ''node-B'')) = PROCESSING
   \<and> lockedBy (sample_job PROCESSING (Some ''node-B'')) \<noteq> Some ''node-A''
   \<and> snd (finalizeJob None [sample_job PROCESSING (Some ''node-B'')] ''j1'' COMPLETED
            (completed_updates zero_counts 9 7))
       \<noteq> [sample_job PROCESSING (Some ''node-B'')]"
  by (simp add: getOne_def finalizeJob_def sample_job_def bump_def Let_def save_def assign_def
        failed_updates_def completed_updates_def zero_counts_def no_updates_def or_keep_def)

section \<open>Properties of import creation\<close>



section \<open>Properties of the import pipeline\<close>























lemma concat_batches: "concat (batches n xs) = xs"
proof (induction n xs rule: batches.induct)
  case (1 n xs)
  show ?case
  proof (cases "xs = []")
    case True
    then show ?thesis by (simp add: batches.simps)
  next
    case False
    with "1.IH" show ?thesis by (subst batches.simps) simp
  qed
qed


lemma batches_single: "batches n [x] = [[x]]"
  by (subst batches.simps, simp, subst batches.simps, simp)











lemma executeImportProcessing_bad_line:
  "executeImportProcessing None V U bs bad_file fe 0 7
       [sample_job PROCESSING (Some ''node-A'')] (sample_job PROCESSING (Some ''node-A''))
       sample_jobData
   = Some (None, [bad_line_job])"
  by (simp add: executeImportProcessing_def sample_jobData_def truthy_def bad_file_def
        processNDJSONStream_def batches_single bad_line_def zero_counts_def flush_every_10_def
        finalizeJob_def getOne_def sample_job_def completed_updates_def no_updates_def
        bad_line_job_def assign_def or_keep_def save_def bump_def maxErrors_def round_div_def Let_def)

lemma csv_loop_processed:
  "res_processedRows (fst (csv_loop V U bs rt jid bss bn c db))
     = res_processedRows c + length (concat bss)
   \<and> res_totalRows (fst (csv_loop V U bs rt jid bss bn c db))
     = res_totalRows c + length (concat bss)"
  by (induction bss arbitrary: bn c db) (auto simp: Let_def add_batch_def)

text \<open>
  The CSV path counts every decoded row as processed: total and processed agree at the
  end, whatever the verdicts on the rows.
\<close>

lemma processCSVStream_processed:
  "res_processedRows (fst (processCSVStream V U bs db rows rt jid)) = length rows
   \<and> res_totalRows (fst (processCSVStream V U bs db rows rt jid)) = length rows"
  using csv_loop_processed[of V U bs rt jid "batches bs rows" 0 zero_counts db]
  by (simp add: processCSVStream_def concat_batches zero_counts_def)

text \<open>
  Claim C2 fails on the code. An NDJSON file whose only line does not parse is imported
  by a node holding the job: the line is counted in \<open>totalRows\<close> and in
  \<open>failedRows\<close> but not in \<open>processedRows\<close>, and the finalize persists
  1 failed row against 0 processed rows.
\<close>

theorem ndjson_parse_error_counters:
  "executeImportProcessing None V U bs bad_file fe 0 7
       [sample_job PROCESSING (Some ''node-A'')] (sample_job PROCESSING (Some ''node-A''))
       sample_jobData
     = Some (None, [bad_line_job])
   \<and> totalRows bad_line_job = 1 \<and> processedRows bad_line_job = 0
   \<and> failedRows bad_line_job = 1
   \<and> \<not> (successfulRows bad_line_job + failedRows bad_line_job + skippedRows bad_line_job
          \<le> processedRows bad_line_job)"
  using executeImportProcessing_bad_line[of V U bs fe]
  by (simp add: bad_line_job_def sample_job_def)



section \<open>Properties of the orchestration\<close>

lemma getOne_updateJobProgress:
  "getOne db k = Some j \<Longrightarrow>
   \<exists>j'. getOne (updateJobProgress db jid t p s f c) k = Some j' \<and> status j' = status j"
  by (induction db) (auto simp: getOne_def updateJobProgress_def bump_def split: if_splits)

lemma finalize_not_pending:
  assumes "getOne db jid = Some j" and "status j \<noteq> PENDING" and "st \<noteq> PENDING"
    and "p_status upd = None"
  shows "\<exists>j'. getOne (snd (finalizeJob fault db jid st upd)) jid = Some j' \<and> status j' \<noteq> PENDING"
proof (cases "status j = PROCESSING \<and> fault = None")
  case False
  with assms show ?thesis by (auto simp: finalizeJob_def Let_def split: option.splits)
next
  case True
  have "id_job (assign (j\<lparr>status := st\<rparr>) upd) = jid"
    using getOne_id[OF assms(1)] by simp
  from getOne_save_same[OF assms(1) this] True assms show ?thesis
    by (auto simp: finalizeJob_def Let_def bump_def assign_def or_keep_def)
qed

lemma transition_success:
  assumes "atomicStatusTransition fault db jid PENDING PROCESSING
             (Some (processing_updates n now)) = (res, db')" and "success res"
  shows "(\<exists>j. getOne db jid = Some j \<and> status j = PENDING)
       \<and> (\<exists>j'. getOne db' jid = Some j' \<and> status j' \<noteq> PENDING)"
proof (cases "getOne db jid")
  case None
  with assms show ?thesis by (auto simp: atomicStatusTransition_def)
next
  case (Some j)
  have p: "status j = PENDING \<and> fault = None"
    using assms Some by (auto simp: atomicStatusTransition_def Let_def split: if_splits option.splits)
  define j2 where "j2 = assign (j\<lparr>status := PROCESSING\<rparr>) (processing_updates n now)"
  have "id_job j2 = jid" using getOne_id[OF Some] by (simp add: j2_def)
  from getOne_save_same[OF Some this] have "getOne (save db j2) jid = Some (bump j2)" .
  moreover have "db' = save db j2"
    using assms Some p by (auto simp: atomicStatusTransition_def Let_def j2_def)
  moreover have "status (bump j2) \<noteq> PENDING"
    by (simp add: j2_def bump_def assign_def or_keep_def processing_updates_def no_updates_def)
  ultimately show ?thesis using Some p by auto
qed

lemma transition_failure:
  "atomicStatusTransition fault db jid fromStatus toStatus upd = (res, db') \<Longrightarrow> \<not> success res
   \<Longrightarrow> db' = db"
  by (auto simp: atomicStatusTransition_def Let_def split: option.splits if_splits)

lemma run_inv_init: "\<forall>n. workers s n = idle_worker \<Longrightarrow> run_inv jid s"
  by (simp add: run_inv_def idle_worker_def)

lemma inv_acquire:
  assumes "run_inv jid s" and "perform jid tok (Acquire n) s = Some s'"
  shows "run_inv jid s'"
proof -
  from assms(2) have st: "pc (workers s n) = Start" by (simp split: if_splits)
  with assms(1) have ne: "\<not> executed (workers s n)" by (simp add: run_inv_def)
  from assms(2) st obtain w r' where
    s': "s' = set_worker (s\<lparr>redis_of := r'\<rparr>) n w" and w: "executed w = executed (workers s n)"
        "pc w = Exited \<or> (pc w = Locked \<and> acquired w)"
    by (auto split: prod.splits option.splits)
  show ?thesis
    using assms(1) ne w unfolding run_inv_def s' set_worker_def
    by auto
qed

lemma inv_transition:
  assumes "run_inv jid s" and "perform jid tok (Transition n fault now) s = Some s'"
  shows "run_inv jid s'"
proof -
  from assms(2) have st: "pc (workers s n) = Locked" by (simp split: if_splits)
  with assms(1) have ne: "\<not> executed (workers s n)" and ac: "acquired (workers s n)"
    by (simp_all add: run_inv_def)
  obtain res db' where t: "atomicStatusTransition fault (db_of s) jid PENDING PROCESSING
                  (Some (processing_updates n now)) = (res, db')"
    by (cases "atomicStatusTransition fault (db_of s) jid PENDING PROCESSING
                  (Some (processing_updates n now))") auto
  define w where "w = (workers s n)\<lparr>
                          pc := (if success res then Running else Releasing),
                          observed_pending :=
                            (case getOne (db_of s) jid of
                               Some j \<Rightarrow> status j = PENDING | None \<Rightarrow> False),
                          executed := success res\<rparr>"
  have s': "s' = set_worker (s\<lparr>db_of := db'\<rparr>) n w"
    using assms(2) st t by (simp add: w_def)
  show ?thesis
  proof (cases "success res")
    case False
    then have "db' = db_of s" using transition_failure[OF t] by simp
    with False assms(1) ne show ?thesis
      unfolding run_inv_def s' set_worker_def w_def by auto
  next
    case True
    from transition_success[OF t True] obtain j j' where
      j: "getOne (db_of s) jid = Some j" "status j = PENDING"
      and j': "getOne db' jid = Some j'" "status j' \<noteq> PENDING" by blast
    have none: "\<not> executed (workers s m)" for m
      using assms(1) j unfolding run_inv_def by auto
    show ?thesis
      using True ac j j' none assms(1) unfolding run_inv_def s' set_worker_def w_def by auto
  qed
qed

lemma inv_db_write:
  assumes "run_inv jid s"
    and "\<And>j. getOne (db_of s) jid = Some j \<Longrightarrow> status j \<noteq> PENDING \<Longrightarrow>
           \<exists>j'. getOne db' jid = Some j' \<and> status j' \<noteq> PENDING"
  shows "run_inv jid (s\<lparr>db_of := db'\<rparr>)"
  using assms unfolding run_inv_def by auto

lemma inv_progress:
  assumes "run_inv jid s" and "perform jid tok (Progress n t p sc f k) s = Some s'"
  shows "run_inv jid s'"
proof -
  from assms(2) have s': "s' = s\<lparr>db_of := updateJobProgress (db_of s) jid t p sc f k\<rparr>"
    by (simp split: if_splits)
  show ?thesis unfolding s'
    by (rule inv_db_write[OF assms(1)]) (use getOne_updateJobProgress in fastforce)
qed

lemma inv_complete:
  assumes "run_inv jid s" and "perform jid tok (Complete n fault c now dur) s = Some s'"
  shows "run_inv jid s'"
proof -
  from assms(2) have s': "s' = s\<lparr>db_of := snd (finalizeJob fault (db_of s) jid COMPLETED
                                     (completed_updates c now dur))\<rparr>"
    by (simp split: if_splits)
  show ?thesis unfolding s'
    by (rule inv_db_write[OF assms(1)], rule finalize_not_pending)
       (simp_all add: completed_updates_def no_updates_def)
qed

lemma inv_fail:
  assumes "run_inv jid s" and "perform jid tok (Fail n fault msg now dur) s = Some s'"
  shows "run_inv jid s'"
proof -
  from assms(2) have s': "s' = s\<lparr>db_of := snd (finalizeJob fault (db_of s) jid FAILED
                                     (failed_updates msg now dur))\<rparr>"
    by (simp split: if_splits)
  show ?thesis unfolding s'
    by (rule inv_db_write[OF assms(1)], rule finalize_not_pending)
       (simp_all add: failed_updates_def no_updates_def)
qed

lemma inv_finish:
  assumes "run_inv jid s" and "perform jid tok (Finish n) s = Some s'"
  shows "run_inv jid s'"
proof -
  from assms(2) have st: "pc (workers s n) = Running"
    and s': "s' = set_worker s n ((workers s n)\<lparr>pc := Releasing\<rparr>)"
    by (simp_all split: if_splits)
  show ?thesis using assms(1) st unfolding run_inv_def s' set_worker_def by auto
qed

lemma inv_release:
  assumes "run_inv jid s" and "perform jid tok (Release n) s = Some s'"
  shows "run_inv jid s'"
proof -
  from assms(2) obtain r' where st: "pc (workers s n) = Releasing"
    and s': "s' = set_worker (s\<lparr>redis_of := r'\<rparr>) n ((workers s n)\<lparr>pc := Exited\<rparr>)"
    by (auto split: if_splits option.splits)
  show ?thesis using assms(1) st unfolding run_inv_def s' set_worker_def by auto
qed

lemma inv_expire:
  assumes "run_inv jid s" and "perform jid tok (Expire k) s = Some s'"
  shows "run_inv jid s'"
  using assms unfolding run_inv_def by auto

lemma inv_perform:
  "run_inv jid s \<Longrightarrow> perform jid tok a s = Some s' \<Longrightarrow> run_inv jid s'"
  by (cases a)
     (blast intro: inv_acquire inv_transition inv_progress inv_complete inv_fail inv_finish
        inv_release inv_expire)+

lemma inv_run:
  "run_inv jid s \<Longrightarrow> run jid tok acts s = Some s' \<Longrightarrow> run_inv jid s'"
  by (induction acts arbitrary: s) (auto split: option.splits dest: inv_perform)

lemma loser_leaves_job:
  assumes "run_inv jid s" and "perform jid tok a s = Some s'" and "actor a = Some n"
    and "\<not> executed (workers s' n)"
  shows "db_of s' = db_of s"
proof (cases a)
  case (Acquire m)
  with assms(2) show ?thesis
    by (auto simp: set_worker_def split: if_splits prod.splits option.splits)
next
  case (Transition m fault now)
  with assms(3) have mn: "m = n" by simp
  obtain res db' where t: "atomicStatusTransition fault (db_of s) jid PENDING PROCESSING
                  (Some (processing_updates n now)) = (res, db')"
    by (cases "atomicStatusTransition fault (db_of s) jid PENDING PROCESSING
                  (Some (processing_updates n now))") auto
  from assms(2) Transition mn t have "db_of s' = db'" and "executed (workers s' n) = success res"
    by (auto simp: set_worker_def split: if_splits)
  with assms(4) transition_failure[OF t] show ?thesis by simp
next
  case (Progress m t p sc f k)
  with assms(3) have mn: "m = n" by simp
  from assms(2) Progress mn have "pc (workers s n) = Running" "workers s' = workers s"
    by (auto split: if_splits)
  with assms(1) assms(4) show ?thesis by (simp add: run_inv_def)
next
  case (Complete m fault c now dur)
  with assms(3) have mn: "m = n" by simp
  from assms(2) Complete mn have "pc (workers s n) = Running" "workers s' = workers s"
    by (auto split: if_splits)
  with assms(1) assms(4) show ?thesis by (simp add: run_inv_def)
next
  case (Fail m fault msg now dur)
  with assms(3) have mn: "m = n" by simp
  from assms(2) Fail mn have "pc (workers s n) = Running" "workers s' = workers s"
    by (auto split: if_splits)
  with assms(1) assms(4) show ?thesis by (simp add: run_inv_def)
next
  case (Finish m)
  with assms(2) show ?thesis by (auto simp: set_worker_def split: if_splits)
next
  case (Release m)
  with assms(2) show ?thesis by (auto simp: set_worker_def split: if_splits option.splits)
next
  case (Expire k)
  with assms(3) show ?thesis by simp
qed

lemma acquire_twice:
  assumes "r (''lock:'' @ k) = None"
  shows "fst (acquireLock r k t1 0) = Some \<lparr>lock_key = ''lock:'' @ k, lock_token = t1\<rparr>
       \<and> fst (acquireLock (snd (acquireLock r k t1 0)) k t2 0) = None
       \<and> snd (acquireLock (snd (acquireLock r k t1 0)) k t2 0) (''lock:'' @ k) = Some t1"
  using assms by (simp add: acquireLock_def set_nx_def)

lemma sample_run_outcome:
  "\<exists>s. run ''j1'' token_of sample_run two_nodes = Some s
       \<and> executed (workers s ''node-A'') \<and> pc (workers s ''node-A'') = Exited
       \<and> pc (workers s ''node-B'') = Exited
       \<and> redis_of s ''lock:import-job:j1'' = None"
  by (simp add: sample_run_def two_nodes_def idle_worker_def token_of_def acquireLock_def
        set_nx_def set_worker_def atomicStatusTransition_def getOne_def sample_job_def
        processing_updates_def no_updates_def assign_def or_keep_def bump_def save_def
        releaseLock_def finalizeJob_def completed_updates_def zero_counts_def Let_def)

text \<open>
  Claim C4. Let the same job be delivered to any number of nodes, all at the start of
  \<open>processImport\<close>, and let their actions and the expiry of locks interleave in any
  order. In every state they reach, at most one node has entered the pipeline, and that
  node acquired the lock and read the job as PENDING in its transition; a node is in the
  pipeline only after that. Every action of a node that has not entered the pipeline
  leaves the jobs table as it was. Of two acquires on a free key the first returns the
  lock and the second returns none.
\<close>

theorem one_node_executes_pipeline:
  assumes "\<forall>n. workers s0 n = idle_worker" and "run jobId tok acts s0 = Some s"
  shows "(\<forall>n m. executed (workers s n) \<and> executed (workers s m) \<longrightarrow> n = m)
       \<and> (\<forall>n. executed (workers s n) \<longrightarrow>
              acquired (workers s n) \<and> observed_pending (workers s n))
       \<and> (\<forall>n. pc (workers s n) = Running \<longrightarrow> executed (workers s n))
       \<and> (\<forall>a s' n. perform jobId tok a s = Some s' \<and> actor a = Some n
              \<and> \<not> executed (workers s' n) \<longrightarrow> db_of s' = db_of s)
       \<and> (\<forall>r k t1 t2. r (''lock:'' @ k) = None \<longrightarrow>
              fst (acquireLock r k t1 0) \<noteq> None
              \<and> fst (acquireLock (snd (acquireLock r k t1 0)) k t2 0) = None)"
proof -
  have inv: "run_inv jobId s"
    using inv_run[OF run_inv_init[OF assms(1)] assms(2)] .
  have 1: "\<forall>n m. executed (workers s n) \<and> executed (workers s m) \<longrightarrow> n = m"
    using inv unfolding run_inv_def by blast
  have 2: "\<forall>n. executed (workers s n) \<longrightarrow>
              acquired (workers s n) \<and> observed_pending (workers s n)"
    using inv unfolding run_inv_def by blast
  have 3: "\<forall>n. pc (workers s n) = Running \<longrightarrow> executed (workers s n)"
    using inv unfolding run_inv_def by blast
  have 4: "\<forall>a s' n. perform jobId tok a s = Some s' \<and> actor a = Some n
              \<and> \<not> executed (workers s' n) \<longrightarrow> db_of s' = db_of s"
    using loser_leaves_job[OF inv] by blast
  have 5: "\<forall>r k t1 t2. r (''lock:'' @ k) = None \<longrightarrow>
              fst (acquireLock r k t1 0) \<noteq> None
              \<and> fst (acquireLock (snd (acquireLock r k t1 0)) k t2 0) = None"
    using acquire_twice by simp
  from 1 2 3 4 5 show ?thesis by blast
qed

text \<open>
  C4 on two nodes and one pending job: node A acquires, node B is refused, node A runs
  the job to completion and releases.
\<close>

theorem one_node_executes_pipeline_witness:
  "workers two_nodes ''node-A'' = idle_worker \<and> workers two_nodes ''node-B'' = idle_worker
   \<and> run ''j1'' token_of sample_run two_nodes \<noteq> None
   \<and> executed (workers (the (run ''j1'' token_of sample_run two_nodes)) ''node-A'')
   \<and> \<not> executed (workers (the (run ''j1'' token_of sample_run two_nodes)) ''node-B'')
   \<and> pc (workers (the (run ''j1'' token_of sample_run two_nodes)) ''node-B'') = Exited"
proof -
  from sample_run_outcome obtain s where
    r: "run ''j1'' token_of sample_run two_nodes = Some s"
    and a: "executed (workers s ''node-A'')" and b: "pc (workers s ''node-B'') = Exited"
    by blast
  have i: "\<forall>n. workers two_nodes n = idle_worker" by (simp add: two_nodes_def)
  from one_node_executes_pipeline[OF i r] a have "\<not> executed (workers s ''node-B'')"
    by auto
  with r a b i show ?thesis by simp
qed

section \<open>Properties of the export queries\<close>

lemma countRecords_resource_where:
  "countRecords table rt filters = getCount table (resource_where rt filters)"
  by (cases rt; cases filters) (simp_all add: countRecords_def resource_where_def Let_def)

lemma fetchRecordsBatch_resource_where:
  "fetchRecordsBatch table rt filters offset limit =
     getMany table ((resource_where rt filters)\<lparr>orderBy := Some C_createdAt, skip_n := offset,
                                                 take_n := limit\<rparr>)"
  by (cases rt; cases filters)
     (simp_all add: fetchRecordsBatch_def fetchUsers_def fetchArticles_def fetchComments_def
        resource_where_def Let_def)

lemma stream_loop_error:
  "where_pred (parameters (resource_where rt filters)) (wheres (resource_where rt filters)) = Inl err
   \<Longrightarrow> stream_loop table bs rt filters offset out = (out, Some err)"
  by (subst stream_loop.simps) (simp add: fetchRecordsBatch_resource_where getMany_def)

lemma stream_loop_rows:
  "where_pred (parameters (resource_where rt filters)) (wheres (resource_where rt filters)) = Inr P
   \<Longrightarrow> 0 < bs
   \<Longrightarrow> stream_loop table bs rt filters offset out
         = (out @ drop offset (sort_key e_createdAt (filter P table)), None)"
proof (induction table bs rt filters offset out rule: stream_loop.induct)
  case (1 table batchSize rt filters offset out)
  define S where "S = sort_key e_createdAt (filter P table)"
  define records where "records = take batchSize (drop offset S)"
  have f: "fetchRecordsBatch table rt filters offset batchSize = Inr records"
    using "1.prems"
    by (simp add: fetchRecordsBatch_resource_where getMany_def order_rows_def limit_rows_def
          S_def records_def)
  show ?case
  proof (cases "length records = 0")
    case True
    then have "drop offset S = []" using "1.prems"(2) by (simp add: records_def)
    with f True show ?thesis
      unfolding S_def[symmetric] by (subst stream_loop.simps) simp
  next
    case False
    show ?thesis
    proof (cases "length records = batchSize")
      case True
      have "stream_loop table batchSize rt filters (offset + length records) (out @ records)
            = ((out @ records) @ drop (offset + length records) S, None)"
        unfolding S_def using "1.IH"[OF f False True "1.prems"] .
      moreover have "records @ drop (offset + length records) S = drop offset S"
        using True append_take_drop_id[of batchSize "drop offset S"]
        by (simp add: records_def add.commute)
      ultimately show ?thesis
        using f False True unfolding S_def[symmetric]
        by (subst stream_loop.simps) simp
    next
      case ne: False
      have "length (drop offset S) < batchSize"
        using ne by (simp add: records_def min_def split: if_splits)
      then have "records = drop offset S" by (simp add: records_def)
      with f False ne show ?thesis
        unfolding S_def[symmetric] by (subst stream_loop.simps) simp
    qed
  qed
qed

lemma wheres_andWhere [simp]:
  "wheres (andWhere qb c cmp n ps) = wheres qb @ [\<lparr>w_column = c, w_cmp = cmp, w_param = n\<rparr>]"
  by (simp add: andWhere_def)

lemma parameters_andWhere [simp]:
  "parameters (andWhere qb c cmp n ps) = ps @ parameters qb"
  by (simp add: andWhere_def)

lemma where_pred_unbound:
  "w \<in> set ws \<Longrightarrow> map_of ps (w_param w) = None \<Longrightarrow> \<exists>err. where_pred ps ws = Inl err"
  by (induction ws) (auto split: option.splits sum.splits)

lemma where_pred_sem:
  "\<forall>w \<in> set ws. map_of ps (w_param w) \<noteq> None \<Longrightarrow>
   \<exists>P. where_pred ps ws = Inr P
       \<and> (\<forall>e. P e \<longleftrightarrow> (\<forall>w \<in> set ws. holds (w_cmp w) (col_val e (w_column w))
                                          (the (map_of ps (w_param w)))))"
  by (induction ws) (auto split: option.splits sum.splits)

lemma createdAfter_unbound:
  "\<lparr>w_column = C_createdAt, w_cmp = Ge, w_param = ''createdAfter''\<rparr>
     \<in> set (wheres (resource_where rt (Some (f\<lparr>f_createdAfter := Some d\<rparr>))))
   \<and> map_of (parameters (resource_where rt (Some (f\<lparr>f_createdAfter := Some d\<rparr>)))) ''createdAfter''
       = None"
  by (cases rt)
     (auto simp: resource_where_def applyCommonFilters_def createQueryBuilder_def Let_def
           split: option.splits)

lemma where_none:
  "where_pred (parameters (resource_where rt None)) (wheres (resource_where rt None))
   = Inr (\<lambda>e. True)"
  by (simp add: resource_where_def applyCommonFilters_def createQueryBuilder_def)

lemma bound_sem_empty: "bound_sem {} createQueryBuilder (\<lambda>e. True)"
  by (simp add: bound_sem_def createQueryBuilder_def)

lemma bound_sem_mono: "bound_sem N qb Q \<Longrightarrow> N \<subseteq> N' \<Longrightarrow> bound_sem N' qb Q"
  by (auto simp: bound_sem_def)

lemma bound_sem_andWhere:
  assumes "bound_sem N qb Q" and "n \<notin> N"
  shows "bound_sem (insert n N) (andWhere qb c cmp n [(n, v)])
           (\<lambda>e. Q e \<and> holds cmp (col_val e c) v)"
proof -
  have old: "map_of ((n, v) # parameters qb) (w_param w) = map_of (parameters qb) (w_param w)"
    if "w \<in> set (wheres qb)" for w
  proof -
    have "w_param w \<in> N" using assms(1) that by (auto simp: bound_sem_def list_all_iff)
    with assms(2) have "w_param w \<noteq> n" by auto
    then show ?thesis by simp
  qed
  have sem: "list_all (\<lambda>w. holds (w_cmp w) (col_val e (w_column w))
                 (the (map_of ((n, v) # parameters qb) (w_param w)))) (wheres qb) = Q e" for e
  proof -
    have "list_all (\<lambda>w. holds (w_cmp w) (col_val e (w_column w))
                 (the (map_of ((n, v) # parameters qb) (w_param w)))) (wheres qb)
          = list_all (\<lambda>w. holds (w_cmp w) (col_val e (w_column w))
                 (the (map_of (parameters qb) (w_param w)))) (wheres qb)"
      using old by (auto simp: list_all_iff)
    then show ?thesis using assms(1) by (simp add: bound_sem_def)
  qed
  show ?thesis
    using assms(1) sem by (auto simp: bound_sem_def list_all_iff)
qed

lemma bound_sem_cong: "bound_sem N qb Q \<Longrightarrow> (\<And>e. Q e = Q' e) \<Longrightarrow> bound_sem N qb Q'"
  by (simp add: bound_sem_def)

lemma bound_sem_opt:
  assumes "bound_sem N qb Q" and "n \<notin> N"
  shows "bound_sem (insert n N)
           (case x of Some d \<Rightarrow> andWhere qb c cmp n [(n, g d)] | None \<Rightarrow> qb)
           (\<lambda>e. Q e \<and> (case x of None \<Rightarrow> True | Some d \<Rightarrow> holds cmp (col_val e c) (g d)))"
proof (cases x)
  case None
  then show ?thesis using bound_sem_mono[OF assms(1), of "insert n N"] by auto
next
  case (Some d)
  then show ?thesis using bound_sem_andWhere[OF assms, of c cmp "g d"] by simp
qed

lemma bound_sem_if:
  assumes "bound_sem N qb Q" and "n \<notin> N"
  shows "bound_sem (insert n N)
           (if b then andWhere qb c cmp n [(n, v)] else qb)
           (\<lambda>e. Q e \<and> (if b then holds cmp (col_val e c) v else True))"
proof (cases b)
  case False
  then show ?thesis using bound_sem_mono[OF assms(1), of "insert n N"] by auto
next
  case True
  then show ?thesis using bound_sem_andWhere[OF assms, of c cmp v] by simp
qed

lemma bound_sem_where_pred:
  assumes "bound_sem N qb Q"
  shows "\<exists>P. where_pred (parameters qb) (wheres qb) = Inr P \<and> (\<forall>e. P e \<longleftrightarrow> Q e)"
proof -
  have "\<forall>w \<in> set (wheres qb). map_of (parameters qb) (w_param w) \<noteq> None"
    using assms by (auto simp: bound_sem_def list_all_iff map_of_eq_None_iff)
  from where_pred_sem[OF this] obtain P where
    "where_pred (parameters qb) (wheres qb) = Inr P"
    "\<forall>e. P e \<longleftrightarrow> (\<forall>w \<in> set (wheres qb). holds (w_cmp w) (col_val e (w_column w))
                                          (the (map_of (parameters qb) (w_param w))))"
    by blast
  with assms show ?thesis by (auto simp: bound_sem_def list_all_iff)
qed

lemma common_ok:
  assumes "f_createdAfter f = None"
  shows "bound_sem {''updatedBefore'', ''updatedAfter'', ''createdBefore'', ''ids''}
           (applyCommonFilters createQueryBuilder (Some f))
           (\<lambda>e. (((case f_ids f of None \<Rightarrow> True
                      | Some ids \<Rightarrow> if ids = [] then True else e_id e \<in> set ids)
                  \<and> (case f_createdBefore f of None \<Rightarrow> True | Some d \<Rightarrow> e_createdAt e \<le> d))
                  \<and> (case f_updatedAfter f of None \<Rightarrow> True | Some d \<Rightarrow> d \<le> e_updatedAt e))
                  \<and> (case f_updatedBefore f of None \<Rightarrow> True | Some d \<Rightarrow> e_updatedAt e \<le> d))"
proof -
  define qb1 where "qb1 = (case f_ids f of
                       Some ids \<Rightarrow> if ids \<noteq> [] then andWhere createQueryBuilder C_id In ''ids'' [(''ids'', VList ids)]
                                   else createQueryBuilder
                     | None \<Rightarrow> createQueryBuilder)"
  define Q1 :: "Entity \<Rightarrow> bool" where "Q1 = (\<lambda>e. case f_ids f of None \<Rightarrow> True
                      | Some ids \<Rightarrow> if ids = [] then True else e_id e \<in> set ids)"
  have s1: "bound_sem {''ids''} qb1 Q1"
  proof (cases "f_ids f")
    case None
    then show ?thesis
      using bound_sem_mono[OF bound_sem_empty, of "{''ids''}"] by (simp add: qb1_def Q1_def)
  next
    case (Some ids)
    show ?thesis
    proof (cases "ids = []")
      case True
      with Some show ?thesis
        using bound_sem_mono[OF bound_sem_empty, of "{''ids''}"] by (simp add: qb1_def Q1_def)
    next
      case False
      have "bound_sem (insert ''ids'' {}) (andWhere createQueryBuilder C_id In ''ids'' [(''ids'', VList ids)])
              (\<lambda>e. True \<and> holds In (col_val e C_id) (VList ids))"
        by (rule bound_sem_andWhere[OF bound_sem_empty]) simp
      with Some False show ?thesis by (simp add: qb1_def Q1_def)
    qed
  qed
  define qb3 where "qb3 = (case f_createdBefore f of
                       Some d \<Rightarrow> andWhere qb1 C_createdAt Le ''createdBefore''
                                   [(''createdBefore'', VDate d)]
                     | None \<Rightarrow> qb1)"
  have s3: "bound_sem (insert ''createdBefore'' {''ids''}) qb3
             (\<lambda>e. Q1 e \<and> (case f_createdBefore f of None \<Rightarrow> True
                            | Some d \<Rightarrow> holds Le (col_val e C_createdAt) (VDate d)))"
    unfolding qb3_def by (rule bound_sem_opt[OF s1]) simp
  define qb4 where "qb4 = (case f_updatedAfter f of
                       Some d \<Rightarrow> andWhere qb3 C_updatedAt Ge ''updatedAfter''
                                   [(''updatedAfter'', VDate d)]
                     | None \<Rightarrow> qb3)"
  have s4: "bound_sem (insert ''updatedAfter'' (insert ''createdBefore'' {''ids''})) qb4
             (\<lambda>e. (Q1 e \<and> (case f_createdBefore f of None \<Rightarrow> True
                            | Some d \<Rightarrow> holds Le (col_val e C_createdAt) (VDate d)))
                   \<and> (case f_updatedAfter f of None \<Rightarrow> True
                            | Some d \<Rightarrow> holds Ge (col_val e C_updatedAt) (VDate d)))"
    unfolding qb4_def by (rule bound_sem_opt[OF s3]) simp
  define qb5 where "qb5 = (case f_updatedBefore f of
                       Some d \<Rightarrow> andWhere qb4 C_updatedAt Le ''updatedBefore''
                                   [(''updatedBefore'', VDate d)]
                     | None \<Rightarrow> qb4)"
  have s5: "bound_sem (insert ''updatedBefore'' (insert ''updatedAfter'' (insert ''createdBefore'' {''ids''}))) qb5
             (\<lambda>e. ((Q1 e \<and> (case f_createdBefore f of None \<Rightarrow> True
                            | Some d \<Rightarrow> holds Le (col_val e C_createdAt) (VDate d)))
                   \<and> (case f_updatedAfter f of None \<Rightarrow> True
                            | Some d \<Rightarrow> holds Ge (col_val e C_updatedAt) (VDate d)))
                   \<and> (case f_updatedBefore f of None \<Rightarrow> True
                            | Some d \<Rightarrow> holds Le (col_val e C_updatedAt) (VDate d)))"
    unfolding qb5_def by (rule bound_sem_opt[OF s4]) simp
  have eq: "applyCommonFilters createQueryBuilder (Some f) = qb5"
    unfolding applyCommonFilters_def Let_def qb5_def qb4_def qb3_def qb1_def
    by (simp only: assms option.case)
  show ?thesis
    unfolding eq
    by (rule bound_sem_cong[OF s5]) (simp add: Q1_def split: option.splits)
qed

lemma where_matches:
  assumes "f_createdAfter f = None"
  shows "\<exists>P. where_pred (parameters (resource_where rt (Some f)))
               (wheres (resource_where rt (Some f))) = Inr P
             \<and> (\<forall>e. P e \<longleftrightarrow> matches rt (Some f) e)"
proof -
  define qb where "qb = applyCommonFilters createQueryBuilder (Some f)"
  define N where "N = {''updatedBefore'', ''updatedAfter'', ''createdBefore'', ''ids''}"
  define Q :: "Entity \<Rightarrow> bool" where "Q =
           (\<lambda>e. (((case f_ids f of None \<Rightarrow> True
                      | Some ids \<Rightarrow> if ids = [] then True else e_id e \<in> set ids)
                  \<and> (case f_createdBefore f of None \<Rightarrow> True | Some d \<Rightarrow> e_createdAt e \<le> d))
                  \<and> (case f_updatedAfter f of None \<Rightarrow> True | Some d \<Rightarrow> d \<le> e_updatedAt e))
                  \<and> (case f_updatedBefore f of None \<Rightarrow> True | Some d \<Rightarrow> e_updatedAt e \<le> d))"
  have c: "bound_sem N qb Q"
    unfolding qb_def N_def Q_def by (rule common_ok[OF assms])
  have mq: "matches rt (Some f) e \<longleftrightarrow>
        Q e \<and> (case rt of
                 USERS \<Rightarrow> (case f_active f of None \<Rightarrow> True | Some a \<Rightarrow> e_active e = a)
               | ARTICLES \<Rightarrow>
                   (if truthy (f_status f) then e_status e = the (f_status f) else True)
                   \<and> (if truthy (f_authorId f) then e_authorId e = the (f_authorId f) else True)
               | COMMENTS \<Rightarrow>
                   (if truthy (f_articleId f) then e_articleId e = the (f_articleId f) else True)
                   \<and> (if truthy (f_userId f) then e_userId e = the (f_userId f) else True))" for e
    unfolding matches_def Q_def using assms by simp
  have "\<exists>N' Q'. bound_sem N' (resource_where rt (Some f)) Q' \<and> (\<forall>e. Q' e \<longleftrightarrow> matches rt (Some f) e)"
  proof (cases rt)
    case USERS
    define Q1 :: "Entity \<Rightarrow> bool" where "Q1 = (\<lambda>e. Q e \<and> (case f_active f of None \<Rightarrow> True
                          | Some a \<Rightarrow> holds Eq (col_val e C_active) (VBool a)))"
    have st: "bound_sem (insert ''active'' N)
           (case f_active f of Some a \<Rightarrow> andWhere qb C_active Eq ''active'' [(''active'', VBool a)]
                             | None \<Rightarrow> qb) Q1"
      unfolding Q1_def by (rule bound_sem_opt[OF c]) (simp add: N_def)
    have eq: "resource_where rt (Some f) =
           (case f_active f of Some a \<Rightarrow> andWhere qb C_active Eq ''active'' [(''active'', VBool a)]
                             | None \<Rightarrow> qb)"
      using USERS unfolding qb_def by (simp add: resource_where_def Let_def)
    have m: "\<forall>e. Q1 e \<longleftrightarrow> matches rt (Some f) e"
      unfolding mq Q1_def using USERS by (simp split: option.splits)
    show ?thesis
      apply (rule exI[of _ "insert ''active'' N"], rule exI[of _ Q1])
      using st m unfolding eq by simp
  next
    case ARTICLES
    define qb1 where "qb1 = (if truthy (f_status f)
                              then andWhere qb C_status Eq ''status''
                                     [(''status'', VStr (the (f_status f)))]
                              else qb)"
    define Q1 :: "Entity \<Rightarrow> bool" where "Q1 = (\<lambda>e. Q e \<and> (if truthy (f_status f)
                         then holds Eq (col_val e C_status) (VStr (the (f_status f))) else True))"
    define Q2 :: "Entity \<Rightarrow> bool" where "Q2 = (\<lambda>e. Q1 e \<and> (if truthy (f_authorId f)
                    then holds Eq (col_val e C_authorId) (VStr (the (f_authorId f))) else True))"
    have s1: "bound_sem (insert ''status'' N) qb1 Q1"
      unfolding qb1_def Q1_def by (rule bound_sem_if[OF c]) (simp add: N_def)
    have st: "bound_sem (insert ''authorId'' (insert ''status'' N))
           (if truthy (f_authorId f)
            then andWhere qb1 C_authorId Eq ''authorId'' [(''authorId'', VStr (the (f_authorId f)))]
            else qb1) Q2"
      unfolding Q2_def by (rule bound_sem_if[OF s1]) (simp add: N_def)
    have eq: "resource_where rt (Some f) =
           (if truthy (f_authorId f)
            then andWhere qb1 C_authorId Eq ''authorId'' [(''authorId'', VStr (the (f_authorId f)))]
            else qb1)"
      using ARTICLES unfolding qb1_def qb_def by (simp add: resource_where_def Let_def)
    have m: "\<forall>e. Q2 e \<longleftrightarrow> matches rt (Some f) e"
      unfolding mq Q2_def Q1_def using ARTICLES by simp
    show ?thesis
      apply (rule exI[of _ "insert ''authorId'' (insert ''status'' N)"], rule exI[of _ Q2])
      using st m unfolding eq by simp
  next
    case COMMENTS
    define qb1 where "qb1 = (if truthy (f_articleId f)
                              then andWhere qb C_articleId Eq ''articleId''
                                     [(''articleId'', VStr (the (f_articleId f)))]
                              else qb)"
    define Q1 :: "Entity \<Rightarrow> bool" where "Q1 = (\<lambda>e. Q e \<and> (if truthy (f_articleId f)
                         then holds Eq (col_val e C_articleId) (VStr (the (f_articleId f))) else True))"
    define Q2 :: "Entity \<Rightarrow> bool" where "Q2 = (\<lambda>e. Q1 e \<and> (if truthy (f_userId f)
                    then holds Eq (col_val e C_userId) (VStr (the (f_userId f))) else True))"
    have s1: "bound_sem (insert ''articleId'' N) qb1 Q1"
      unfolding qb1_def Q1_def by (rule bound_sem_if[OF c]) (simp add: N_def)
    have st: "bound_sem (insert ''userId'' (insert ''articleId'' N))
           (if truthy (f_userId f)
            then andWhere qb1 C_userId Eq ''userId'' [(''userId'', VStr (the (f_userId f)))]
            else qb1) Q2"
      unfolding Q2_def by (rule bound_sem_if[OF s1]) (simp add: N_def)
    have eq: "resource_where rt (Some f) =
           (if truthy (f_userId f)
            then andWhere qb1 C_userId Eq ''userId'' [(''userId'', VStr (the (f_userId f)))]
            else qb1)"
      using COMMENTS unfolding qb1_def qb_def by (simp add: resource_where_def Let_def)
    have m: "\<forall>e. Q2 e \<longleftrightarrow> matches rt (Some f) e"
      unfolding mq Q2_def Q1_def using COMMENTS by simp
    show ?thesis
      apply (rule exI[of _ "insert ''userId'' (insert ''articleId'' N)"], rule exI[of _ Q2])
      using st m unfolding eq by simp
  qed
  then obtain N' Q' where b: "bound_sem N' (resource_where rt (Some f)) Q'"
    and m: "\<forall>e. Q' e \<longleftrightarrow> matches rt (Some f) e" by blast
  from bound_sem_where_pred[OF b] m show ?thesis by auto
qed

lemma streamRecords_selected:
  assumes "0 < bs"
  shows "case selected table (resource_where rt filters) of
            Inl err \<Rightarrow> countRecords table rt filters = Inl err
                      \<and> streamRecords table bs rt filters = ([], Some err)
          | Inr S \<Rightarrow> countRecords table rt filters = Inr (length S)
                    \<and> streamRecords table bs rt filters = (sort_key e_createdAt S, None)"
proof (cases "where_pred (parameters (resource_where rt filters)) (wheres (resource_where rt filters))")
  case (Inl err)
  then show ?thesis
    using stream_loop_error[OF Inl, of table bs 0 "[]"]
    by (simp add: selected_def countRecords_resource_where getCount_def streamRecords_def)
next
  case (Inr P)
  then show ?thesis
    using stream_loop_rows[OF Inr assms, of table 0 "[]"]
    by (simp add: selected_def countRecords_resource_where getCount_def streamRecords_def)
qed


lemma createdAfter_fails:
  "\<exists>err. countRecords table rt (Some (f\<lparr>f_createdAfter := Some d\<rparr>)) = Inl err
       \<and> streamRecords table bs rt (Some (f\<lparr>f_createdAfter := Some d\<rparr>)) = ([], Some err)"
proof -
  note u = createdAfter_unbound[where rt = rt and f = f and d = d]
  have "\<exists>err. where_pred (parameters (resource_where rt (Some (f\<lparr>f_createdAfter := Some d\<rparr>))))
        (wheres (resource_where rt (Some (f\<lparr>f_createdAfter := Some d\<rparr>)))) = Inl err"
    by (rule where_pred_unbound[OF conjunct1[OF u]]) (simp add: conjunct2[OF u])
  then obtain err where e: "where_pred (parameters (resource_where rt (Some (f\<lparr>f_createdAfter := Some d\<rparr>))))
        (wheres (resource_where rt (Some (f\<lparr>f_createdAfter := Some d\<rparr>)))) = Inl err"
    by blast
  show ?thesis
    using e stream_loop_error[OF e, of table bs 0 "[]"]
    by (simp add: countRecords_resource_where getCount_def streamRecords_def)
qed

text \<open>
  The three bounds whose placeholder is bound select by their bound, in the count and in
  the stream alike.
\<close>

lemma bound_filters_select:
  assumes "filters = None \<or> (\<exists>f. filters = Some f \<and> f_createdAfter f = None)" and "0 < bs"
  shows "countRecords table rt filters = Inr (length (filter (matches rt filters) table))
       \<and> streamRecords table bs rt filters
           = (sort_key e_createdAt (filter (matches rt filters) table), None)"
proof -
  have "\<exists>P. where_pred (parameters (resource_where rt filters)) (wheres (resource_where rt filters)) = Inr P
           \<and> (\<forall>e. P e \<longleftrightarrow> matches rt filters e)"
  proof (cases filters)
    case None
    then show ?thesis using where_none[of rt] by (simp add: matches_def)
  next
    case (Some f)
    with assms(1) have "f_createdAfter f = None" by simp
    from where_matches[OF this, of rt] Some show ?thesis by simp
  qed
  then obtain P where p: "where_pred (parameters (resource_where rt filters))
        (wheres (resource_where rt filters)) = Inr P" and m: "\<forall>e. P e \<longleftrightarrow> matches rt filters e"
    by blast
  have "filter P table = filter (matches rt filters) table" using m by (simp cong: filter_cong)
  then show ?thesis
    using streamRecords_selected[OF assms(2), of table rt filters] p
    by (simp add: selected_def)
qed


text \<open>
  Claim C9 fails on the code. With a \<open>createdAfter\<close> bound the condition names the
  placeholder \<open>:createdAfter\<close> while the value is passed as \<open>createdAt\<close>: for every
  table, resource and other filters the count throws and the stream ends with the same
  error without a row. On the sample table the count with \<open>createdAfter = 4\<close> is the
  syntax error; with \<open>createdBefore = 4\<close> it is the one row created by then.
\<close>

theorem createdAfter_filter_unbound:
  "(\<exists>err. countRecords table rt (Some (f\<lparr>f_createdAfter := Some d\<rparr>)) = Inl err
       \<and> streamRecords table bs rt (Some (f\<lparr>f_createdAfter := Some d\<rparr>)) = ([], Some err))
   \<and> countRecords tied_users USERS (Some created_after_4)
       = Inl ''syntax error at or near :createdAfter''
   \<and> countRecords tied_users USERS (Some created_before_4) = Inr 1"
proof (intro conjI)
  show "\<exists>err. countRecords table rt (Some (f\<lparr>f_createdAfter := Some d\<rparr>)) = Inl err
       \<and> streamRecords table bs rt (Some (f\<lparr>f_createdAfter := Some d\<rparr>)) = ([], Some err)"
    by (rule createdAfter_fails)
  show "countRecords tied_users USERS (Some created_after_4)
       = Inl ''syntax error at or near :createdAfter''"
    by (simp add: countRecords_def applyCommonFilters_def created_after_4_def no_filters_def
          createQueryBuilder_def getCount_def Let_def)
  show "countRecords tied_users USERS (Some created_before_4) = Inr 1"
    by (simp add: countRecords_def applyCommonFilters_def created_before_4_def no_filters_def
          createQueryBuilder_def getCount_def Let_def tied_users_def user_row_def)
qed




section \<open>The CSV decoder as configured\<close>











section \<open>Properties of the format detection\<close>

lemma split_on_single: "d \<notin> set e \<Longrightarrow> split_on d e = [e]"
  by (induction e) (auto split: list.splits)

lemma split_on_append:
  "d \<notin> set e \<Longrightarrow> \<exists>segs. segs \<noteq> [] \<and> split_on d (base @ d # e) = segs @ [e]"
proof (induction base)
  case Nil
  then have "split_on d ([] @ d # e) = [[]] @ [e]" by (simp add: split_on_single)
  then show ?case by blast
next
  case (Cons a base)
  then obtain segs where s: "segs \<noteq> []" "split_on d (base @ d # e) = segs @ [e]" by blast
  then obtain seg segs' where c: "segs = seg # segs'" by (cases segs) auto
  show ?case
  proof (cases "a = d")
    case True
    with s have "split_on d ((a # base) @ d # e) = ([] # segs) @ [e]" by simp
    then show ?thesis by blast
  next
    case False
    with s c have "split_on d ((a # base) @ d # e) = ((a # seg) # segs') @ [e]" by simp
    then show ?thesis by blast
  qed
qed

lemma last_split_on_append:
  "d \<notin> set e \<Longrightarrow> last (split_on d (base @ d # e)) = e"
  using split_on_append[of d e base] by auto

text \<open>
  Claim C10, as the code has it. The extension is the text after the last dot, compared
  without regard to case; a name with no dot is taken whole as its own extension. The
  extension csv gives csv, ndjson and jsonl give ndjson, anything else gives json.
\<close>

theorem detectFormat_last_segment:
  assumes "CHR ''.'' \<notin> set e"
  shows "detectFormat (base @ ''.'' @ e) = format_of_ext e \<and> detectFormat e = format_of_ext e"
  using assms last_split_on_append[of "CHR ''.''" e base]
  by (simp add: detectFormat_def format_of_ext_def split_on_single Let_def)

text \<open>C10 on the names users.CSV, CSV, a.b.JsonL and notes.txt.\<close>

theorem detectFormat_last_segment_witness:
  "CHR ''.'' \<notin> set ''CSV'' \<and> detectFormat (''users'' @ ''.'' @ ''CSV'') = ''csv''
   \<and> detectFormat ''CSV'' = ''csv''
   \<and> CHR ''.'' \<notin> set ''JsonL'' \<and> detectFormat (''a.b'' @ ''.'' @ ''JsonL'') = ''ndjson''
   \<and> CHR ''.'' \<notin> set ''txt'' \<and> detectFormat (''notes'' @ ''.'' @ ''txt'') = ''json''"
  using detectFormat_last_segment[of "''CSV''" "''users''"]
    detectFormat_last_segment[of "''JsonL''" "''a.b''"]
    detectFormat_last_segment[of "''txt''" "''notes''"]
  by (simp add: format_of_ext_def toLowerCase_def lower_char_def)

text \<open>
  C10 as stated fails on a name without extension: the file named csv has no dot, and
  is detected as csv, not json.
\<close>

theorem detectFormat_no_extension_counterexample:
  "CHR ''.'' \<notin> set ''csv'' \<and> detectFormat ''csv'' \<noteq> ''json''"
  by (simp add: detectFormat_def toLowerCase_def lower_char_def)

end
